theory Spec2Isabelle
  imports Main "HOL-Library.Product_Lexorder" "HOL-Library.Multiset"
begin

section \<open>The store (schema.sql)\<close>

text \<open>
  The exchange keeps its state in five tables. Identifiers and share quantities are SQL
  \<open>INT\<close>; prices and cash balances are \<open>DECIMAL(15,2)\<close> and are counted here in
  hundredths. A statement stores an amount rounded to hundredths, so the amounts the
  statements below add and subtract are the exact products. The comparisons the routes
  make in JavaScript on products of doubles are a different matter: the double arithmetic
  is a parameter of the model (\<open>js_arith\<close> below).

  An \<open>UPDATE\<close> that addresses a missing row changes nothing. An \<open>INSERT\<close> that names a
  user without a row in \<open>users\<close> violates a foreign key and raises; it is \<open>None\<close> here. The
  other rows an \<open>INSERT\<close> of the routes refers to (the symbol, the orders of a trade) have
  been read or inserted by the route just before.
\<close>

datatype side = Buy | Sell

datatype ostatus = OPEN | FILLED | CANCELLED

record order_row =
  order_id :: int
  user_id :: int
  symbol_id :: int
  side :: side
  price :: int
  quantity :: int
  status :: ostatus

record trade_row =
  t_symbol_id :: int
  t_price :: int
  t_quantity :: int
  buy_order_id :: "int option"
  sell_order_id :: "int option"
  buy_user_id :: int
  sell_user_id :: int
  taker_side :: side

record symbol_row =
  outstanding_shares :: int
  last_price :: "int option"
  prev_price :: "int option"

text \<open>
  \<open>users\<close> maps a user id to the row's \<open>cash_balance\<close>; \<open>positions\<close> is keyed by
  \<open>(user_id, symbol_id)\<close>; \<open>orders\<close> and \<open>trades\<close> are the rows in insertion order;
  \<open>next_order_id\<close> is the \<open>AUTO_INCREMENT\<close> counter of \<open>orders\<close>.
\<close>

record db =
  users :: "int \<rightharpoonup> int"
  symbols :: "int \<rightharpoonup> symbol_row"
  positions :: "(int \<times> int) \<rightharpoonup> int"
  orders :: "order_row list"
  trades :: "trade_row list"
  next_order_id :: int

subsection \<open>JavaScript numbers\<close>

text \<open>
  A price as the route holds it after \<open>Number(price)\<close>: a finite number of at most two
  decimals, given in hundredths, or \<open>NaN\<close> (a price that is not numeric). Prices with more
  decimals and infinite prices are not represented.
\<close>

datatype jsnum = NaN | Num int

text \<open>
  The number a statement receives for a price: the route writes 0 for \<open>null\<close>
  (\<open>price !== null ? price : 0\<close>, and \<open>null\<close> is 0 in a product). \<open>NaN\<close> is no number for
  the database: the statements that would carry it raise (\<open>reserve\<close>, \<open>insert_order\<close>), so
  its value here is never used.
\<close>

definition num :: "jsnum option \<Rightarrow> int" where
  "num p = (case p of None \<Rightarrow> 0 | Some NaN \<Rightarrow> 0 | Some (Num v) \<Rightarrow> v)"

text \<open>
  The arithmetic of IEEE doubles, as far as the route's decisions depend on it:
  \<open>parseFloat\<close> of a \<open>DECIMAL(15,2)\<close> value (given in hundredths), the product of a double
  and an integer quantity, the difference and the comparison of two doubles. The model
  assumes nothing about these operations.
\<close>

record 'f js_arith =
  js_parseFloat :: "int \<Rightarrow> 'f"
  js_times :: "'f \<Rightarrow> int \<Rightarrow> 'f"
  js_minus :: "'f \<Rightarrow> 'f \<Rightarrow> 'f"
  js_less :: "'f \<Rightarrow> 'f \<Rightarrow> bool"

text \<open>
  The arithmetic without rounding. The doubles agree with it wherever the numbers compared
  are exactly representable or further apart than the rounding error.
\<close>

definition exact_arith :: "int js_arith" where
  "exact_arith =
     \<lparr>js_parseFloat = (\<lambda>v. v), js_times = (\<lambda>x q. x * q), js_minus = (\<lambda>x y. x - y),
      js_less = (\<lambda>x y. x < y)\<rparr>"

text \<open>\<open>tradePrice * matchQty\<close> with \<open>tradePrice = parseFloat(order.price)\<close>, as a double.\<close>

definition fill_cost :: "'f js_arith \<Rightarrow> order_row \<Rightarrow> int \<Rightarrow> 'f" where
  "fill_cost J ord matchQty = js_times J (js_parseFloat J (price ord)) matchQty"

text \<open>
  \<open>userCash < price * qty\<close> on doubles, for a balance read with \<open>parseFloat\<close> and a price
  that is \<open>null\<close>, \<open>NaN\<close> or finite. Every comparison with \<open>NaN\<close> is false.
\<close>

definition cash_below_cost :: "'f js_arith \<Rightarrow> int \<Rightarrow> jsnum option \<Rightarrow> int \<Rightarrow> bool" where
  "cash_below_cost J userCash p qty =
     (case p of
        None \<Rightarrow> js_less J (js_parseFloat J userCash) (js_times J (js_parseFloat J 0) qty)
      | Some NaN \<Rightarrow> False
      | Some (Num v) \<Rightarrow>
          js_less J (js_parseFloat J userCash) (js_times J (js_parseFloat J v) qty))"

subsection \<open>The SQL statements the routes issue\<close>

text \<open>\<open>UPDATE users SET cash_balance = cash_balance + ? WHERE id = ?\<close>\<close>

definition credit :: "int \<Rightarrow> int \<Rightarrow> db \<Rightarrow> db" where
  "credit amount uid d =
     d\<lparr>users := (case users d uid of
                    None \<Rightarrow> users d
                  | Some c \<Rightarrow> (users d)(uid \<mapsto> c + amount))\<rparr>"

text \<open>\<open>UPDATE users SET cash_balance = cash_balance - ? WHERE id = ?\<close>\<close>

definition debit :: "int \<Rightarrow> int \<Rightarrow> db \<Rightarrow> db" where
  "debit amount uid d =
     d\<lparr>users := (case users d uid of
                    None \<Rightarrow> users d
                  | Some c \<Rightarrow> (users d)(uid \<mapsto> c - amount))\<rparr>"

text \<open>
  \<open>INSERT INTO positions (user_id, symbol_id, quantity) VALUES (?, ?, q)
   ON DUPLICATE KEY UPDATE quantity = quantity + q\<close>
\<close>

definition position_add :: "int \<Rightarrow> int \<Rightarrow> int \<Rightarrow> db \<Rightarrow> db" where
  "position_add uid sid q d =
     d\<lparr>positions := (case positions d (uid, sid) of
                        None \<Rightarrow> (positions d)((uid, sid) \<mapsto> q)
                      | Some n \<Rightarrow> (positions d)((uid, sid) \<mapsto> n + q))\<rparr>"

text \<open>
  \<open>INSERT INTO positions (user_id, symbol_id, quantity) VALUES (?, ?, -q)
   ON DUPLICATE KEY UPDATE quantity = quantity - q\<close>
\<close>

definition position_sub :: "int \<Rightarrow> int \<Rightarrow> int \<Rightarrow> db \<Rightarrow> db" where
  "position_sub uid sid q d =
     d\<lparr>positions := (case positions d (uid, sid) of
                        None \<Rightarrow> (positions d)((uid, sid) \<mapsto> - q)
                      | Some n \<Rightarrow> (positions d)((uid, sid) \<mapsto> n - q))\<rparr>"

text \<open>\<open>DELETE FROM positions WHERE quantity = 0\<close>\<close>

definition delete_zero_positions :: "db \<Rightarrow> db" where
  "delete_zero_positions d =
     d\<lparr>positions := (\<lambda>k. case positions d k of
                             None \<Rightarrow> None
                           | Some n \<Rightarrow> (if n = 0 then None else Some n))\<rparr>"

text \<open>\<open>UPDATE orders SET quantity = ?, status = ? WHERE id = ?\<close>\<close>

definition update_order :: "int \<Rightarrow> int \<Rightarrow> ostatus \<Rightarrow> db \<Rightarrow> db" where
  "update_order oid q st d =
     d\<lparr>orders := map (\<lambda>r. if order_id r = oid then r\<lparr>quantity := q, status := st\<rparr> else r)
                      (orders d)\<rparr>"

text \<open>\<open>UPDATE orders SET quantity = ? WHERE id = ?\<close>\<close>

definition update_order_quantity :: "int \<Rightarrow> int \<Rightarrow> db \<Rightarrow> db" where
  "update_order_quantity oid q d =
     d\<lparr>orders := map (\<lambda>r. if order_id r = oid then r\<lparr>quantity := q\<rparr> else r) (orders d)\<rparr>"

text \<open>
  \<open>INSERT INTO trades (...) VALUES (...)\<close>; \<open>buy_user_id\<close> and \<open>sell_user_id\<close> reference
  \<open>users\<close>.
\<close>

definition insert_trade :: "trade_row \<Rightarrow> db \<Rightarrow> db option" where
  "insert_trade t d =
     (if users d (buy_user_id t) = None \<or> users d (sell_user_id t) = None then None
      else Some (d\<lparr>trades := trades d @ [t]\<rparr>))"

text \<open>
  \<open>INSERT INTO orders (user_id, symbol_id, side, price, quantity, status) VALUES (...)\<close>;
  \<open>user_id\<close> references \<open>users\<close>, and a \<open>NaN\<close> price is not a value the server accepts.
  The new row takes the counter's value as its id, which is \<open>insertResult.insertId\<close>.
\<close>

definition insert_order :: "int \<Rightarrow> int \<Rightarrow> side \<Rightarrow> jsnum option \<Rightarrow> int \<Rightarrow> db \<Rightarrow> db option" where
  "insert_order uid sid sd p q d =
     (if users d uid = None \<or> p = Some NaN then None
      else Some (d\<lparr>orders := orders d @
                     [\<lparr>order_id = next_order_id d, user_id = uid, symbol_id = sid, side = sd,
                       price = num p, quantity = q, status = OPEN\<rparr>],
                   next_order_id := next_order_id d + 1\<rparr>))"

text \<open>\<open>UPDATE symbols SET prev_price = ?, last_price = ? WHERE id = ?\<close>\<close>

definition update_prices :: "int \<Rightarrow> int \<Rightarrow> int \<Rightarrow> db \<Rightarrow> db" where
  "update_prices sid prev lst d =
     d\<lparr>symbols := (case symbols d sid of
                      None \<Rightarrow> symbols d
                    | Some s \<Rightarrow> (symbols d)(sid \<mapsto> s\<lparr>last_price := Some lst,
                                                       prev_price := Some prev\<rparr>))\<rparr>"

text \<open>\<open>SELECT MIN(price)\<close> and \<open>SELECT MAX(price)\<close>: \<open>NULL\<close> over no rows.\<close>

primrec sql_min :: "int list \<Rightarrow> int option" where
  "sql_min [] = None"
| "sql_min (x # xs) = (case sql_min xs of None \<Rightarrow> Some x | Some m \<Rightarrow> Some (min x m))"

primrec sql_max :: "int list \<Rightarrow> int option" where
  "sql_max [] = None"
| "sql_max (x # xs) = (case sql_max xs of None \<Rightarrow> Some x | Some m \<Rightarrow> Some (max x m))"

text \<open>The open orders of one side of a symbol's book.\<close>

definition open_orders :: "int \<Rightarrow> side \<Rightarrow> db \<Rightarrow> order_row list" where
  "open_orders sid sd d =
     filter (\<lambda>r. symbol_id r = sid \<and> side r = sd \<and> status r = OPEN) (orders d)"

definition bestAsk :: "int \<Rightarrow> db \<Rightarrow> int option" where
  "bestAsk sid d = sql_min (map price (open_orders sid Sell d))"

definition bestBid :: "int \<Rightarrow> db \<Rightarrow> int option" where
  "bestBid sid d = sql_max (map price (open_orders sid Buy d))"

text \<open>\<open>ORDER BY price ASC, id ASC\<close> and \<open>ORDER BY price DESC, id ASC\<close>.\<close>

definition price_asc_id_asc :: "order_row \<Rightarrow> int \<times> int" where
  "price_asc_id_asc r = (price r, order_id r)"

definition price_desc_id_asc :: "order_row \<Rightarrow> int \<times> int" where
  "price_desc_id_asc r = (- price r, order_id r)"

section \<open>Order submission: \<open>POST /api/orders\<close>\<close>

subsection \<open>Request, response and rejections\<close>

text \<open>
  The body of a request. \<open>r_symbol_id\<close> and \<open>r_quantity\<close> are the results of \<open>parseInt\<close>,
  with \<open>None\<close> for \<open>NaN\<close> (an absent or non-numeric field). \<open>r_side\<close> and \<open>r_type\<close> are
  \<open>None\<close> when absent. \<open>r_price\<close> is \<open>None\<close> when the field is \<open>undefined\<close> or \<open>null\<close>, and
  otherwise what \<open>Number(price)\<close> yields.
\<close>

record request =
  r_symbol_id :: "int option"
  r_side :: "string option"
  r_price :: "jsnum option"
  r_quantity :: "int option"
  r_type :: "string option"

text \<open>
  The answers of the routes that are not a success. \<open>ErrorProcessingOrder\<close> is the 500 of
  the catch block around the transaction, which rolls the transaction back.
\<close>

datatype error =
    MissingOrInvalidParameters
  | InvalidOrderSide
  | InvalidPriceForLimitOrder
  | CrossesBook
  | SymbolNotFound
  | InsufficientFunds
  | ExceedsSharesInCirculation
  | InsufficientFundsToShort
  | NoLiquidity
  | ErrorProcessingOrder
  | OrderNotFound
  | AccessDenied
  | InvalidBurnQuantity
  | InsufficientSharesToBurn

record response =
  orderStatus :: string
  tradesExecuted :: "(int \<times> int) list"

text \<open>\<open>toLowerCase\<close> on the ASCII letters; every other character is kept.\<close>

definition toLowerCase_char :: "char \<Rightarrow> char" where
  "toLowerCase_char c =
     (case map_of (zip ''ABCDEFGHIJKLMNOPQRSTUVWXYZ'' ''abcdefghijklmnopqrstuvwxyz'') c of
        None \<Rightarrow> c
      | Some l \<Rightarrow> l)"

definition toLowerCase :: "string \<Rightarrow> string" where
  "toLowerCase s = map toLowerCase_char s"

text \<open>\<open>return (!t || t === '') ? 'limit' : t.toLowerCase();\<close>\<close>

definition normalizeType :: "string option \<Rightarrow> string" where
  "normalizeType t =
     (case t of
        None \<Rightarrow> ''limit''
      | Some s \<Rightarrow> (if s = [] then ''limit'' else toLowerCase s))"

text \<open>
  Input validation (the first three rejections of the route). For a limit order the price
  is rejected when \<open>price === undefined || price === null || Number(price) <= 0\<close>; the
  comparison is false for \<open>NaN\<close>, which therefore passes. An accepted request yields the
  symbol id, the side, the price (\<open>null\<close> unless the type is \<open>limit\<close>), the quantity and the
  normalised type.
\<close>

definition validate :: "request \<Rightarrow> error + (int \<times> side \<times> jsnum option \<times> int \<times> string)" where
  "validate req =
     (let sd = map_option toLowerCase (r_side req);
          type = normalizeType (r_type req)
      in case r_symbol_id req of
           None \<Rightarrow> Inl MissingOrInvalidParameters
         | Some sid \<Rightarrow>
        (case sd of
           None \<Rightarrow> Inl MissingOrInvalidParameters
         | Some s \<Rightarrow>
        (case r_quantity req of
           None \<Rightarrow> Inl MissingOrInvalidParameters
         | Some qty \<Rightarrow>
           if sid = 0 \<or> s = [] \<or> qty = 0 \<or> qty \<le> 0
           then Inl MissingOrInvalidParameters
           else if s \<noteq> ''buy'' \<and> s \<noteq> ''sell'' then Inl InvalidOrderSide
           else if type = ''limit'' then
             (case r_price req of
                None \<Rightarrow> Inl InvalidPriceForLimitOrder
              | Some NaN \<Rightarrow> Inr (sid, if s = ''buy'' then Buy else Sell, Some NaN, qty, type)
              | Some (Num p) \<Rightarrow>
                  if p \<le> 0 then Inl InvalidPriceForLimitOrder
                  else Inr (sid, if s = ''buy'' then Buy else Sell, Some (Num p), qty, type))
           else Inr (sid, if s = ''buy'' then Buy else Sell, None, qty, type))))"

subsection \<open>Maker-maker cross prevention\<close>

text \<open>
  \<open>bestAsk !== null && price >= parseFloat(bestAsk)\<close>, and the same with \<open><=\<close> and the best
  bid. Both sides are conversions of decimal numbers, which keep their order; a \<open>NaN\<close>
  price compares false.
\<close>

definition cross_prevention :: "int \<Rightarrow> side \<Rightarrow> jsnum option \<Rightarrow> string \<Rightarrow> db \<Rightarrow> error option" where
  "cross_prevention sid sd p type d =
     (if type = ''limit'' then
        (case sd of
           Buy \<Rightarrow>
             (case bestAsk sid d of
                None \<Rightarrow> None
              | Some a \<Rightarrow> if p \<noteq> Some NaN \<and> num p \<ge> a then Some CrossesBook else None)
         | Sell \<Rightarrow>
             (case bestBid sid d of
                None \<Rightarrow> None
              | Some b \<Rightarrow> if p \<noteq> Some NaN \<and> num p \<le> b then Some CrossesBook else None))
      else None)"

subsection \<open>Resource preconditions\<close>

definition userCash_of :: "int \<Rightarrow> db \<Rightarrow> int" where
  "userCash_of userId d = (case users d userId of None \<Rightarrow> 0 | Some c \<Rightarrow> c)"

definition userPos_of :: "int \<Rightarrow> int \<Rightarrow> db \<Rightarrow> int" where
  "userPos_of userId sid d =
     (case positions d (userId, sid) of None \<Rightarrow> 0 | Some q \<Rightarrow> q)"

text \<open>\<open>quantity - (userPos > 0 ? userPos : 0)\<close>\<close>

definition shortQty_of :: "int \<Rightarrow> int \<Rightarrow> int" where
  "shortQty_of qty userPos = qty - (if userPos > 0 then userPos else 0)"

text \<open>
  \<open>userCash < price * quantity\<close> for a limit buy; for a sell beyond the position, the short
  quantity against the outstanding shares and \<open>userCash < shortPrice * shortQty\<close>, where
  \<open>shortPrice\<close> is the limit price or, for another type, the symbol's last price (0 when
  there is none). The comparisons with a product are comparisons of doubles.
\<close>

definition resource_check ::
  "'f js_arith \<Rightarrow> symbol_row \<Rightarrow> int \<Rightarrow> int \<Rightarrow> side \<Rightarrow> jsnum option \<Rightarrow> int \<Rightarrow> string
   \<Rightarrow> error option" where
  "resource_check J symRow userCash userPos sd p qty type =
     (case sd of
        Buy \<Rightarrow>
          (if type = ''limit'' \<and> cash_below_cost J userCash p qty then Some InsufficientFunds
           else None)
      | Sell \<Rightarrow>
          (if qty > userPos \<and> shortQty_of qty userPos > outstanding_shares symRow
           then Some ExceedsSharesInCirculation
           else if qty > userPos \<and>
                   cash_below_cost J userCash
                     (if type = ''limit'' then p
                      else (case last_price symRow of None \<Rightarrow> None | Some lp \<Rightarrow> Some (Num lp)))
                     (shortQty_of qty userPos)
           then Some InsufficientFundsToShort
           else None))"

subsection \<open>Reservation\<close>

text \<open>
  The first statements of the transaction. The \<open>UPDATE\<close> of a limit buy carries
  \<open>price * quantity\<close> and raises when that is \<open>NaN\<close>; the collateral of a short limit sell
  is debited only if \<open>collateral > 0\<close>, which is false for \<open>NaN\<close>.
\<close>

definition reserve ::
  "int \<Rightarrow> int \<Rightarrow> side \<Rightarrow> jsnum option \<Rightarrow> int \<Rightarrow> string \<Rightarrow> db \<Rightarrow> db option" where
  "reserve userId userPos sd p qty type d =
     (if sd = Buy \<and> type = ''limit'' then
        (if p = Some NaN then None else Some (debit (num p * qty) userId d))
      else if sd = Sell \<and> type = ''limit'' then
        (if qty > userPos then
           (let collateral = num p * shortQty_of qty userPos
            in if p \<noteq> Some NaN \<and> collateral > 0 then Some (debit collateral userId d)
               else Some d)
         else Some d)
      else Some d)"

subsection \<open>Market order execution\<close>

text \<open>
  \<open>SELECT * FROM orders WHERE symbol_id = ? AND side = ? AND status = 'OPEN'
   ORDER BY price ASC, id ASC\<close> for a buy (hitting the sell side),
  \<open>ORDER BY price DESC, id ASC\<close> for a sell (hitting the buy side).
\<close>

definition market_book :: "int \<Rightarrow> side \<Rightarrow> db \<Rightarrow> order_row list" where
  "market_book sid sd d =
     (case sd of
        Buy \<Rightarrow> sort_key price_asc_id_asc (open_orders sid Sell d)
      | Sell \<Rightarrow> sort_key price_desc_id_asc (open_orders sid Buy d))"

text \<open>
  One iteration of the market loop past its two \<open>break\<close>s: the trade row, the resting
  order's new quantity and status, then the cash and position transfers, in the order
  of the source. The position statements name the users of the trade row.
\<close>

definition market_trade :: "int \<Rightarrow> int \<Rightarrow> side \<Rightarrow> order_row \<Rightarrow> int \<Rightarrow> trade_row" where
  "market_trade userId sid sd ord matchQty =
     \<lparr>t_symbol_id = sid, t_price = price ord, t_quantity = matchQty,
      buy_order_id = (if sd = Buy then None else Some (order_id ord)),
      sell_order_id = (if sd = Buy then Some (order_id ord) else None),
      buy_user_id = (if sd = Buy then userId else user_id ord),
      sell_user_id = (if sd = Buy then user_id ord else userId),
      taker_side = sd\<rparr>"

definition market_fill :: "int \<Rightarrow> int \<Rightarrow> side \<Rightarrow> order_row \<Rightarrow> int \<Rightarrow> db \<Rightarrow> db option" where
  "market_fill userId sid sd ord matchQty d =
     (case insert_trade (market_trade userId sid sd ord matchQty) d of
        None \<Rightarrow> None
      | Some d1 \<Rightarrow>
          (let tradePrice = price ord;
               newQty = quantity ord - matchQty;
               d2 = update_order (order_id ord) newQty (if newQty = 0 then FILLED else OPEN) d1
           in if sd = Buy then
                Some (position_sub (user_id ord) sid matchQty
                  (position_add userId sid matchQty
                     (credit (tradePrice * matchQty) (user_id ord)
                        (debit (tradePrice * matchQty) userId d2))))
              else
                Some (position_add (user_id ord) sid matchQty
                  (position_sub userId sid matchQty
                     (debit (tradePrice * matchQty) (user_id ord)
                        (credit (tradePrice * matchQty) userId d2))))))"

text \<open>
  The loop over the selected rows. It carries \<open>remainingQty\<close>, the double \<open>cashAvailable\<close>
  and \<open>tradesExecuted\<close>, and reads each resting order's quantity from the selected row.
  A buy breaks when \<open>cashAvailable < tradePrice * matchQty\<close> and otherwise subtracts that
  product from \<open>cashAvailable\<close>. \<open>None\<close>: a statement of an iteration raised.
\<close>

fun market_loop ::
  "'f js_arith \<Rightarrow> int \<Rightarrow> int \<Rightarrow> side \<Rightarrow> order_row list \<Rightarrow> int \<Rightarrow> 'f \<Rightarrow> (int \<times> int) list \<Rightarrow> db
   \<Rightarrow> (db \<times> int \<times> (int \<times> int) list) option" where
  "market_loop J userId sid sd [] remainingQty cashAvailable executed d =
     Some (d, remainingQty, executed)"
| "market_loop J userId sid sd (ord # bookOrders) remainingQty cashAvailable executed d =
     (if remainingQty = 0 then Some (d, remainingQty, executed)
      else if sd = Buy \<and>
              js_less J cashAvailable (fill_cost J ord (min remainingQty (quantity ord)))
      then Some (d, remainingQty, executed)
      else case market_fill userId sid sd ord (min remainingQty (quantity ord)) d of
             None \<Rightarrow> None
           | Some d' \<Rightarrow>
               market_loop J userId sid sd bookOrders
                 (remainingQty - min remainingQty (quantity ord))
                 (if sd = Buy
                  then js_minus J cashAvailable
                         (fill_cost J ord (min remainingQty (quantity ord)))
                  else cashAvailable)
                 (executed @ [(price ord, min remainingQty (quantity ord))])
                 d')"

text \<open>
  The price stamp: \<open>prev_price\<close> becomes the symbol's last price as it was read before
  the transaction (or the last trade's price when there was none), \<open>last_price\<close> the
  price of the last trade executed.
\<close>

definition stamp_prices :: "int \<Rightarrow> symbol_row \<Rightarrow> (int \<times> int) list \<Rightarrow> db \<Rightarrow> db" where
  "stamp_prices sid symRow executed d =
     (let lastTradePrice = fst (last executed);
          prevPrice = (case last_price symRow of None \<Rightarrow> lastTradePrice | Some lp \<Rightarrow> lp)
      in update_prices sid prevPrice lastTradePrice d)"

text \<open>
  A market order, from the store \<open>d0\<close> the transaction began with. A statement that raises
  and a loop without a fill both roll the transaction back, so \<open>d0\<close> is returned; otherwise
  prices are stamped, zero positions deleted and the transaction committed.
  \<open>cashAvailable\<close> starts as \<open>userCash\<close>, the balance read with \<open>parseFloat\<close>.
\<close>

definition market_order ::
  "'f js_arith \<Rightarrow> int \<Rightarrow> int \<Rightarrow> side \<Rightarrow> int \<Rightarrow> symbol_row \<Rightarrow> int \<Rightarrow> db \<Rightarrow> db
   \<Rightarrow> (error + response) \<times> db" where
  "market_order J userId sid sd qty symRow userCash d0 d =
     (case market_loop J userId sid sd (market_book sid sd d) qty (js_parseFloat J userCash) [] d of
        None \<Rightarrow> (Inl ErrorProcessingOrder, d0)
      | Some (d1, remainingQty, executed) \<Rightarrow>
          if length executed = 0 then (Inl NoLiquidity, d0)
          else (Inr \<lparr>orderStatus = (if remainingQty = 0 then ''FILLED'' else ''PARTIAL''),
                     tradesExecuted = executed\<rparr>,
                delete_zero_positions (stamp_prices sid symRow executed d1)))"

subsection \<open>Limit order placement\<close>

text \<open>
  The candidates of a new limit buy: \<open>... AND side = 'sell' AND status = 'OPEN' AND
  price <= ? ORDER BY price ASC, id ASC\<close>; of a new limit sell: \<open>... AND side = 'buy'
  AND status = 'OPEN' AND price >= ? ORDER BY price DESC, id ASC\<close>. A comparison with
  \<open>NULL\<close> selects no row. (A \<open>NaN\<close> price does not reach these statements: the \<open>INSERT\<close> of
  the order before them has raised.)
\<close>

definition limit_buy_book :: "int \<Rightarrow> jsnum option \<Rightarrow> db \<Rightarrow> order_row list" where
  "limit_buy_book sid p d =
     (case p of
        Some (Num limit) \<Rightarrow>
          sort_key price_asc_id_asc (filter (\<lambda>r. price r \<le> limit) (open_orders sid Sell d))
      | _ \<Rightarrow> [])"

definition limit_sell_book :: "int \<Rightarrow> jsnum option \<Rightarrow> db \<Rightarrow> order_row list" where
  "limit_sell_book sid p d =
     (case p of
        Some (Num limit) \<Rightarrow>
          sort_key price_desc_id_asc (filter (\<lambda>r. price r \<ge> limit) (open_orders sid Buy d))
      | _ \<Rightarrow> [])"

definition limit_buy_trade :: "int \<Rightarrow> int \<Rightarrow> int \<Rightarrow> order_row \<Rightarrow> int \<Rightarrow> trade_row" where
  "limit_buy_trade userId sid newOrderId sellOrder matchQty =
     \<lparr>t_symbol_id = sid, t_price = price sellOrder, t_quantity = matchQty,
      buy_order_id = Some newOrderId, sell_order_id = Some (order_id sellOrder),
      buy_user_id = userId, sell_user_id = user_id sellOrder, taker_side = Buy\<rparr>"

definition limit_buy_fill :: "int \<Rightarrow> int \<Rightarrow> int \<Rightarrow> order_row \<Rightarrow> int \<Rightarrow> db \<Rightarrow> db option" where
  "limit_buy_fill userId sid newOrderId sellOrder matchQty d =
     (case insert_trade (limit_buy_trade userId sid newOrderId sellOrder matchQty) d of
        None \<Rightarrow> None
      | Some d1 \<Rightarrow>
          (let tradePrice = price sellOrder;
               newSellQty = quantity sellOrder - matchQty;
               d2 = update_order (order_id sellOrder) newSellQty
                      (if newSellQty = 0 then FILLED else OPEN) d1
           in Some (credit (tradePrice * matchQty) (user_id sellOrder)
                (position_sub (user_id sellOrder) sid matchQty
                   (position_add userId sid matchQty d2)))))"

fun limit_buy_loop ::
  "int \<Rightarrow> int \<Rightarrow> int \<Rightarrow> order_row list \<Rightarrow> int \<Rightarrow> (int \<times> int) list \<Rightarrow> db
   \<Rightarrow> (db \<times> int \<times> (int \<times> int) list) option" where
  "limit_buy_loop userId sid newOrderId [] remainingQty executed d =
     Some (d, remainingQty, executed)"
| "limit_buy_loop userId sid newOrderId (sellOrder # sellOrders) remainingQty executed d =
     (if remainingQty \<le> 0 then Some (d, remainingQty, executed)
      else case limit_buy_fill userId sid newOrderId sellOrder
                  (min remainingQty (quantity sellOrder)) d of
             None \<Rightarrow> None
           | Some d' \<Rightarrow>
               if remainingQty - min remainingQty (quantity sellOrder) = 0
               then Some (d', remainingQty - min remainingQty (quantity sellOrder),
                          executed @ [(price sellOrder, min remainingQty (quantity sellOrder))])
               else limit_buy_loop userId sid newOrderId sellOrders
                      (remainingQty - min remainingQty (quantity sellOrder))
                      (executed @ [(price sellOrder, min remainingQty (quantity sellOrder))])
                      d')"

definition limit_sell_trade :: "int \<Rightarrow> int \<Rightarrow> int \<Rightarrow> order_row \<Rightarrow> int \<Rightarrow> trade_row" where
  "limit_sell_trade userId sid newOrderId buyOrder matchQty =
     \<lparr>t_symbol_id = sid, t_price = price buyOrder, t_quantity = matchQty,
      buy_order_id = Some (order_id buyOrder), sell_order_id = Some newOrderId,
      buy_user_id = user_id buyOrder, sell_user_id = userId, taker_side = Sell\<rparr>"

definition limit_sell_fill :: "int \<Rightarrow> int \<Rightarrow> int \<Rightarrow> order_row \<Rightarrow> int \<Rightarrow> db \<Rightarrow> db option" where
  "limit_sell_fill userId sid newOrderId buyOrder matchQty d =
     (case insert_trade (limit_sell_trade userId sid newOrderId buyOrder matchQty) d of
        None \<Rightarrow> None
      | Some d1 \<Rightarrow>
          (let tradePrice = price buyOrder;
               newBuyQty = quantity buyOrder - matchQty;
               d2 = update_order (order_id buyOrder) newBuyQty
                      (if newBuyQty = 0 then FILLED else OPEN) d1
           in Some (credit (tradePrice * matchQty) userId
                (debit (tradePrice * matchQty) (user_id buyOrder)
                   (position_sub userId sid matchQty
                      (position_add (user_id buyOrder) sid matchQty d2))))))"

fun limit_sell_loop ::
  "int \<Rightarrow> int \<Rightarrow> int \<Rightarrow> order_row list \<Rightarrow> int \<Rightarrow> (int \<times> int) list \<Rightarrow> db
   \<Rightarrow> (db \<times> int \<times> (int \<times> int) list) option" where
  "limit_sell_loop userId sid newOrderId [] remainingQty executed d =
     Some (d, remainingQty, executed)"
| "limit_sell_loop userId sid newOrderId (buyOrder # buyOrders) remainingQty executed d =
     (if remainingQty \<le> 0 then Some (d, remainingQty, executed)
      else case limit_sell_fill userId sid newOrderId buyOrder
                  (min remainingQty (quantity buyOrder)) d of
             None \<Rightarrow> None
           | Some d' \<Rightarrow>
               if remainingQty - min remainingQty (quantity buyOrder) = 0
               then Some (d', remainingQty - min remainingQty (quantity buyOrder),
                          executed @ [(price buyOrder, min remainingQty (quantity buyOrder))])
               else limit_sell_loop userId sid newOrderId buyOrders
                      (remainingQty - min remainingQty (quantity buyOrder))
                      (executed @ [(price buyOrder, min remainingQty (quantity buyOrder))])
                      d')"

text \<open>
  Refund of reserved cash to a limit buyer:
  \<open>totalSpent = tradesExecuted.reduce((sum, t) => sum + (t.price * t.quantity), 0)\<close>.
\<close>

definition refund_buy ::
  "int \<Rightarrow> jsnum option \<Rightarrow> int \<Rightarrow> int \<Rightarrow> (int \<times> int) list \<Rightarrow> db \<Rightarrow> db" where
  "refund_buy userId p qty remainingQty executed d =
     (if remainingQty < qty then
        (let totalSpent = foldl (\<lambda>sum t. sum + fst t * snd t) 0 executed;
             totalReserved = num p * qty;
             refund = totalReserved - totalSpent
         in if refund > 0 then credit refund userId d else d)
      else d)"

text \<open>
  Refund of short collateral to a limit seller, from the remaining quantity:
  \<open>remainingShortQty = remainingQty -
     (userPos > 0 ? Math.max(0, userPos - (quantity - remainingQty)) : 0)\<close>.
\<close>

definition refund_sell :: "int \<Rightarrow> jsnum option \<Rightarrow> int \<Rightarrow> int \<Rightarrow> int \<Rightarrow> db \<Rightarrow> db" where
  "refund_sell userId p qty userPos remainingQty d =
     (if qty > userPos then
        (let remainingShortQty =
               remainingQty - (if userPos > 0 then max 0 (userPos - (qty - remainingQty)) else 0);
             refundCollateral = num p * (if remainingShortQty > 0 then remainingShortQty else 0)
         in if refundCollateral > 0 then credit refundCollateral userId d else d)
      else d)"

text \<open>
  Every type other than \<open>market\<close> takes this path, from the store \<open>d0\<close> the transaction
  began with and the store \<open>d\<close> after the reservation: the order is inserted as \<open>OPEN\<close>
  (price 0 when the price is \<open>null\<close>), matched as a taker, its row updated, reserved cash
  refunded, prices stamped and zero positions deleted. A statement that raises rolls the
  transaction back.
\<close>

definition limit_order ::
  "int \<Rightarrow> int \<Rightarrow> side \<Rightarrow> jsnum option \<Rightarrow> int \<Rightarrow> string \<Rightarrow> symbol_row \<Rightarrow> int \<Rightarrow> db \<Rightarrow> db
   \<Rightarrow> (error + response) \<times> db" where
  "limit_order userId sid sd p qty type symRow userPos d0 d =
     (let newOrderId = next_order_id d
      in case insert_order userId sid sd p qty d of
           None \<Rightarrow> (Inl ErrorProcessingOrder, d0)
         | Some d1 \<Rightarrow>
        (case (case sd of
                 Buy \<Rightarrow> limit_buy_loop userId sid newOrderId (limit_buy_book sid p d1) qty [] d1
               | Sell \<Rightarrow> limit_sell_loop userId sid newOrderId (limit_sell_book sid p d1) qty [] d1)
         of None \<Rightarrow> (Inl ErrorProcessingOrder, d0)
          | Some (d2, remainingQty, executed) \<Rightarrow>
           (let d3 = (if remainingQty > 0 then update_order_quantity newOrderId remainingQty d2
                      else update_order newOrderId 0 FILLED d2);
                d4 = (if sd = Buy \<and> type = ''limit''
                      then refund_buy userId p qty remainingQty executed d3 else d3);
                d5 = (if sd = Sell \<and> type = ''limit''
                      then refund_sell userId p qty userPos remainingQty d4 else d4);
                d6 = (if length executed > 0 then stamp_prices sid symRow executed d5 else d5)
            in (Inr \<lparr>orderStatus =
                       (if remainingQty = 0 then ''FILLED''
                        else if remainingQty < qty then ''PARTIAL'' else ''OPEN''),
                     tradesExecuted = executed\<rparr>,
                delete_zero_positions d6))))"

subsection \<open>The route\<close>

text \<open>
  A rejection returns before the transaction or rolls it back, so it returns the store it
  was given. The best prices of the cross prevention, the symbol row, the cash balance and
  the position are read before the transaction begins.
\<close>

definition submit :: "'f js_arith \<Rightarrow> int \<Rightarrow> request \<Rightarrow> db \<Rightarrow> (error + response) \<times> db" where
  "submit J userId req d =
     (case validate req of
        Inl e \<Rightarrow> (Inl e, d)
      | Inr (sid, sd, p, qty, type) \<Rightarrow>
     (case cross_prevention sid sd p type d of
        Some e \<Rightarrow> (Inl e, d)
      | None \<Rightarrow>
     (case symbols d sid of
        None \<Rightarrow> (Inl SymbolNotFound, d)
      | Some symRow \<Rightarrow>
     (case resource_check J symRow (userCash_of userId d) (userPos_of userId sid d) sd p qty
             type of
        Some e \<Rightarrow> (Inl e, d)
      | None \<Rightarrow>
     (case reserve userId (userPos_of userId sid d) sd p qty type d of
        None \<Rightarrow> (Inl ErrorProcessingOrder, d)
      | Some d1 \<Rightarrow>
          if type = ''market''
          then market_order J userId sid sd qty symRow (userCash_of userId d) d d1
          else limit_order userId sid sd p qty type symRow (userPos_of userId sid d) d d1)))))"

section \<open>Order cancellation: \<open>DELETE /api/orders/:id\<close>\<close>

text \<open>
  \<open>SELECT * FROM orders WHERE id = ? AND user_id = ? AND status = "OPEN"\<close>, first row.
  A buy order is refunded \<open>price * quantity\<close>; a sell order with a positive quantity is
  refunded \<open>price * quantity\<close> as well; then
  \<open>UPDATE orders SET status = "CANCELLED", quantity = 0 WHERE id = ?\<close>.
\<close>

definition cancel :: "int \<Rightarrow> int \<Rightarrow> db \<Rightarrow> (error + unit) \<times> db" where
  "cancel userId orderId d =
     (case find (\<lambda>r. order_id r = orderId \<and> user_id r = userId \<and> status r = OPEN) (orders d) of
        None \<Rightarrow> (Inl OrderNotFound, d)
      | Some ord \<Rightarrow>
          (let d1 = (if side ord = Buy then credit (price ord * quantity ord) userId d else d);
               d2 = (if side ord = Sell then
                       (if quantity ord > 0 then credit (price ord * quantity ord) userId d1
                        else d1)
                     else d1)
           in (Inr (), update_order orderId 0 CANCELLED d2)))"

section \<open>Burning shares: \<open>POST /api/symbols/:id/burn\<close>\<close>

datatype role = User | Manager

text \<open>
  \<open>requireManager\<close> reads the role from the token. The quantity is \<open>None\<close> when
  \<open>Number(req.body.quantity)\<close> is \<open>NaN\<close>.
  \<open>UPDATE positions SET quantity = quantity - ? WHERE user_id = ? AND symbol_id = ?\<close>,
  then \<open>UPDATE symbols SET outstanding_shares = outstanding_shares - ? WHERE id = ?\<close>.
\<close>

definition burn :: "role \<Rightarrow> int \<Rightarrow> int \<Rightarrow> int option \<Rightarrow> db \<Rightarrow> (error + unit) \<times> db" where
  "burn r userId symbolId quantity_opt d =
     (if r \<noteq> Manager then (Inl AccessDenied, d)
      else case quantity_opt of
        None \<Rightarrow> (Inl InvalidBurnQuantity, d)
      | Some qty \<Rightarrow>
          if qty = 0 \<or> qty \<le> 0 then (Inl InvalidBurnQuantity, d)
          else (case symbols d symbolId of
             None \<Rightarrow> (Inl SymbolNotFound, d)
           | Some symRow \<Rightarrow>
               (case positions d (userId, symbolId) of
                  None \<Rightarrow> (Inl InsufficientSharesToBurn, d)
                | Some held \<Rightarrow>
                    if held < qty then (Inl InsufficientSharesToBurn, d)
                    else (Inr (),
                          d\<lparr>positions := (positions d)((userId, symbolId) \<mapsto> held - qty),
                            symbols := (symbols d)(symbolId \<mapsto>
                              symRow\<lparr>outstanding_shares := outstanding_shares symRow - qty\<rparr>)\<rparr>))))"

section \<open>The matcher of the specification\<close>

text \<open>
  Price-time priority as the specification words it: for the sell side, ascending price
  then ascending id; for the buy side, descending price then ascending id.
\<close>

definition ask_priority :: "order_row \<Rightarrow> order_row \<Rightarrow> bool" where
  "ask_priority a b \<longleftrightarrow> price a < price b \<or> (price a = price b \<and> order_id a \<le> order_id b)"

definition bid_priority :: "order_row \<Rightarrow> order_row \<Rightarrow> bool" where
  "bid_priority a b \<longleftrightarrow> price a > price b \<or> (price a = price b \<and> order_id a \<le> order_id b)"

text \<open>
  The fills of the specification's matcher over the candidates in priority order: a fill
  is produced as long as a candidate is yielded and the residual is positive; its quantity
  is the minimum of the residual and the maker's remaining quantity; the residual is
  decremented.
\<close>

fun spec_fills :: "int \<Rightarrow> order_row list \<Rightarrow> (order_row \<times> int) list" where
  "spec_fills residual [] = []"
| "spec_fills residual (maker # candidates) =
     (if residual > 0
      then (maker, min residual (quantity maker)) #
           spec_fills (residual - min residual (quantity maker)) candidates
      else [])"

text \<open>
  The same for a market buy, which also stops when the next fill would exceed the taker's
  available cash: the cash the taker started with less the fills made so far, compared and
  subtracted in the route's arithmetic.
\<close>

fun spec_buy_fills :: "'f js_arith \<Rightarrow> 'f \<Rightarrow> int \<Rightarrow> order_row list \<Rightarrow> (order_row \<times> int) list" where
  "spec_buy_fills J cash residual [] = []"
| "spec_buy_fills J cash residual (maker # candidates) =
     (if residual > 0 \<and> \<not> js_less J cash (fill_cost J maker (min residual (quantity maker)))
      then (maker, min residual (quantity maker)) #
           spec_buy_fills J
             (js_minus J cash (fill_cost J maker (min residual (quantity maker))))
             (residual - min residual (quantity maker)) candidates
      else [])"

text \<open>The fills of a market order of either side.\<close>

definition spec_market_fills ::
  "'f js_arith \<Rightarrow> side \<Rightarrow> 'f \<Rightarrow> int \<Rightarrow> order_row list \<Rightarrow> (order_row \<times> int) list" where
  "spec_market_fills J sd cash residual book =
     (case sd of
        Buy \<Rightarrow> spec_buy_fills J cash residual book
      | Sell \<Rightarrow> spec_fills residual book)"

text \<open>The taker's available cash after a list of fills.\<close>

definition cash_left :: "'f js_arith \<Rightarrow> 'f \<Rightarrow> (order_row \<times> int) list \<Rightarrow> 'f" where
  "cash_left J cash fills = foldl (\<lambda>c f. js_minus J c (fill_cost J (fst f) (snd f))) cash fills"

section \<open>Scenario data\<close>

text \<open>
  The initial state of the end-to-end scenarios: users 1 and 2 with 10000 cash each, one
  symbol with 100 outstanding shares, all held by user 1, no prior trade. The scenarios
  run with \<open>exact_arith\<close>: no comparison of theirs is a tie between numbers that the
  doubles round.
\<close>

definition ex_db :: db where
  "ex_db = \<lparr>users = [1 \<mapsto> 10000, 2 \<mapsto> 10000],
            symbols = [1 \<mapsto> \<lparr>outstanding_shares = 100, last_price = None, prev_price = None\<rparr>],
            positions = [(1, 1) \<mapsto> 100], orders = [], trades = [], next_order_id = 1\<rparr>"

definition ex_request :: "string \<Rightarrow> string option \<Rightarrow> jsnum option \<Rightarrow> int \<Rightarrow> request" where
  "ex_request sd ty p q =
     \<lparr>r_symbol_id = Some 1, r_side = Some sd, r_price = p, r_quantity = Some q, r_type = ty\<rparr>"

text \<open>
  User 2 sells 50 shares short with a limit order at 100 and user 1 buys them at the
  market: user 1 then holds 150 shares of a symbol with 100 outstanding.
\<close>

definition short_sale_db :: db where
  "short_sale_db =
     snd (submit exact_arith 1 (ex_request ''buy'' (Some ''market'') None 50)
       (snd (submit exact_arith 2 (ex_request ''sell'' (Some ''limit'') (Some (Num 100)) 50) ex_db)))"

text \<open>User 1, who holds 100 shares, posts a sell limit of 10 at 100.\<close>

definition covered_sell_db :: db where
  "covered_sell_db = snd (submit exact_arith 1 (ex_request ''sell'' (Some ''limit'') (Some (Num 100)) 10) ex_db)"

text \<open>User 2 posts a buy limit of 10 at 100 on the empty book.\<close>

definition resting_buy_db :: db where
  "resting_buy_db = snd (submit exact_arith 2 (ex_request ''buy'' (Some ''limit'') (Some (Num 100)) 10) ex_db)"

text \<open>
  Two further users with 350 and 200 cash; user 1 posts sell limits of 3 at 100 and of 3
  at 101.
\<close>

definition two_asks_db :: db where
  "two_asks_db =
     snd (submit exact_arith 1 (ex_request ''sell'' (Some ''limit'') (Some (Num 101)) 3)
       (snd (submit exact_arith 1 (ex_request ''sell'' (Some ''limit'') (Some (Num 100)) 3)
          (ex_db\<lparr>users := (users ex_db)(3 \<mapsto> 350, 4 \<mapsto> 200)\<rparr>))))"

text \<open>
  Self-trade: user 1 posts a buy limit of 5 at 90, then sells 5 at the market into it.
\<close>

definition own_bid_db :: db where
  "own_bid_db = snd (submit exact_arith 1 (ex_request ''buy'' (Some ''limit'') (Some (Num 90)) 5) ex_db)"

definition self_cross_db :: db where
  "self_cross_db = snd (submit exact_arith 1 (ex_request ''sell'' (Some ''market'') None 5) own_bid_db)"

text \<open>
  Life cycle of a buy limit: user 2's resting buy of 10 at 100 is hit by user 1's market
  sell of 4, and user 2 then cancels the residual 6.
\<close>

definition partly_filled_buy_db :: db where
  "partly_filled_buy_db =
     snd (submit exact_arith 1 (ex_request ''sell'' (Some ''market'') None 4) resting_buy_db)"

definition cancelled_buy_db :: db where
  "cancelled_buy_db = snd (cancel 2 1 partly_filled_buy_db)"

text \<open>
  User 2 bids for 100 shares at 100 with the whole balance; user 1 sells 100 at the market.
\<close>

definition all_in_bid_db :: db where
  "all_in_bid_db = snd (submit exact_arith 2 (ex_request ''buy'' (Some ''limit'') (Some (Num 100)) 100) ex_db)"

definition all_in_filled_db :: db where
  "all_in_filled_db = snd (submit exact_arith 1 (ex_request ''sell'' (Some ''market'') None 100) all_in_bid_db)"

text \<open>Two resting orders at the same price on one side of the book.\<close>

definition equal_asks_db :: db where
  "equal_asks_db =
     snd (submit exact_arith 1 (ex_request ''sell'' (Some ''limit'') (Some (Num 100)) 3)
       (snd (submit exact_arith 1 (ex_request ''sell'' (Some ''limit'') (Some (Num 100)) 3) ex_db)))"

definition equal_bids_db :: db where
  "equal_bids_db =
     snd (submit exact_arith 2 (ex_request ''buy'' (Some ''limit'') (Some (Num 100)) 3)
       (snd (submit exact_arith 2 (ex_request ''buy'' (Some ''limit'') (Some (Num 100)) 3) ex_db)))"

text \<open>User 2, who holds no share, posts a sell limit of 5 at 120.\<close>

definition short_sell_db :: db where
  "short_sell_db = snd (submit exact_arith 2 (ex_request ''sell'' (Some ''limit'') (Some (Num 120)) 5) ex_db)"

text \<open>
  Three asks posted in the order 100, 100, 99: the last one posted has the best price.
\<close>

definition three_asks_db :: db where
  "three_asks_db =
     snd (submit exact_arith 1 (ex_request ''sell'' (Some ''limit'') (Some (Num 99)) 3)
       equal_asks_db)"

text \<open>Three bids posted in the order 100, 100, 101.\<close>

definition three_bids_db :: db where
  "three_bids_db =
     snd (submit exact_arith 2 (ex_request ''buy'' (Some ''limit'') (Some (Num 101)) 3)
       equal_bids_db)"

text \<open>The rows of these two books, and the symbol row of the scenarios.\<close>

definition ex_symbol :: symbol_row where
  "ex_symbol = \<lparr>outstanding_shares = 100, last_price = None, prev_price = None\<rparr>"

definition ask_1 :: order_row where "ask_1 = \<lparr>order_id = 1, user_id = 1, symbol_id = 1, side = Sell, price = 100, quantity = 3, status = OPEN\<rparr>"
definition ask_2 :: order_row where "ask_2 = \<lparr>order_id = 2, user_id = 1, symbol_id = 1, side = Sell, price = 100, quantity = 3, status = OPEN\<rparr>"
definition ask_3 :: order_row where "ask_3 = \<lparr>order_id = 3, user_id = 1, symbol_id = 1, side = Sell, price = 99, quantity = 3, status = OPEN\<rparr>"
definition bid_1 :: order_row where "bid_1 = \<lparr>order_id = 1, user_id = 2, symbol_id = 1, side = Buy, price = 100, quantity = 3, status = OPEN\<rparr>"
definition bid_2 :: order_row where "bid_2 = \<lparr>order_id = 2, user_id = 2, symbol_id = 1, side = Buy, price = 100, quantity = 3, status = OPEN\<rparr>"
definition bid_3 :: order_row where "bid_3 = \<lparr>order_id = 3, user_id = 2, symbol_id = 1, side = Buy, price = 101, quantity = 3, status = OPEN\<rparr>"

section \<open>Properties\<close>

text \<open>The definitions a concrete run of the routes unfolds.\<close>

lemmas route_defs =
  submit_def validate_def normalizeType_def toLowerCase_def toLowerCase_char_def
  cross_prevention_def bestAsk_def bestBid_def open_orders_def num_def
  exact_arith_def fill_cost_def cash_below_cost_def
  userCash_of_def userPos_of_def shortQty_of_def resource_check_def reserve_def
  market_order_def market_book_def market_trade_def market_fill_def stamp_prices_def
  limit_order_def limit_buy_book_def limit_sell_book_def limit_buy_trade_def limit_buy_fill_def
  limit_sell_trade_def limit_sell_fill_def
  refund_buy_def refund_sell_def
  credit_def debit_def position_add_def position_sub_def delete_zero_positions_def
  update_order_def update_order_quantity_def insert_trade_def insert_order_def update_prices_def
  price_asc_id_asc_def price_desc_id_asc_def cancel_def burn_def
  ex_db_def ex_request_def Let_def


subsection \<open>Validation and rejections\<close>

lemma toLowerCase_limit: "toLowerCase ''limit'' = ''limit''"
  by (simp add: toLowerCase_def toLowerCase_char_def)

lemma normalizeType_absent:
  "t = None \<or> t = Some [] \<Longrightarrow> normalizeType t = ''limit''"
  by (auto simp: normalizeType_def)

lemma normalizeType_limit: "normalizeType (Some ''limit'') = ''limit''"
  by (simp add: normalizeType_def toLowerCase_limit)

lemma validate_type_absent:
  assumes "r_type req = None \<or> r_type req = Some []"
  shows "validate req = validate (req\<lparr>r_type := Some ''limit''\<rparr>)"
proof -
  have "normalizeType (r_type req) = ''limit''"
    using assms by (rule normalizeType_absent)
  then show ?thesis
    by (simp add: validate_def Let_def normalizeType_limit split: option.splits)
qed

lemma validate_market_price:
  "normalizeType (r_type req) = ''market'' \<Longrightarrow> validate (req\<lparr>r_price := p\<rparr>) = validate req"
  by (simp add: validate_def Let_def split: option.splits)

lemma validate_error:
  "validate req = Inl e \<Longrightarrow>
   e = MissingOrInvalidParameters \<or> e = InvalidOrderSide \<or> e = InvalidPriceForLimitOrder"
  by (auto simp: validate_def Let_def split: option.splits if_splits jsnum.splits)

lemma validate_market_not_price:
  "normalizeType (r_type req) = ''market'' \<Longrightarrow> validate req \<noteq> Inl InvalidPriceForLimitOrder"
  by (simp add: validate_def Let_def split: option.splits)

lemma validate_quantity:
  "validate req = Inr (sid, sd, p, qty, type) \<Longrightarrow> 0 < qty"
  by (auto simp: validate_def Let_def split: option.splits if_splits jsnum.splits)

lemma validate_price_aux:
  "r_price req = pr \<Longrightarrow> validate req = Inr (sid, sd, p, qty, type) \<Longrightarrow>
   (if type = ''limit''
    then p = pr \<and> (pr = Some NaN \<or> (\<exists>v. pr = Some (Num v) \<and> 0 < v))
    else p = None)"
  by (auto simp: validate_def Let_def split: option.splits if_splits jsnum.splits)

lemma validate_price:
  assumes "validate req = Inr (sid, sd, p, qty, type)"
  shows "if type = ''limit''
         then p = r_price req \<and> (p = Some NaN \<or> (\<exists>v. p = Some (Num v) \<and> 0 < v))
         else p = None"
  using validate_price_aux [OF refl assms] by (auto split: if_splits)

lemma validate_limit_price:
  assumes "validate req = Inr (sid, sd, p, qty, ''limit'')"
  shows "p = Some NaN \<or> (\<exists>limit. p = Some (Num limit) \<and> 0 < limit)"
  using validate_price [OF assms] by auto

lemma cross_prevention_error:
  "cross_prevention sid sd p type d = Some e \<Longrightarrow> e = CrossesBook"
  by (auto simp: cross_prevention_def split: if_splits side.splits option.splits)

lemma resource_check_error:
  "resource_check J symRow userCash userPos sd p qty type = Some e \<Longrightarrow>
   e = InsufficientFunds \<or> e = ExceedsSharesInCirculation \<or> e = InsufficientFundsToShort"
  by (cases sd) (auto simp: resource_check_def split: if_splits)

text \<open>A rejection of the transaction returns the store the transaction began with.\<close>

lemma market_order_error:
  assumes "market_order J userId sid sd qty symRow userCash d0 d = (Inl e, d')"
  shows "(e = NoLiquidity \<or> e = ErrorProcessingOrder) \<and> d' = d0"
  using assms by (auto simp: market_order_def split: option.splits prod.splits if_splits)

lemma limit_order_error:
  assumes "limit_order userId sid sd p qty type symRow userPos d0 d = (Inl e, d')"
  shows "e = ErrorProcessingOrder \<and> d' = d0"
  using assms by (auto simp: limit_order_def Let_def split: option.splits prod.splits)

lemma submit_Inl_cases:
  assumes "submit J userId req d = (Inl e, d')"
  obtains (validation) "validate req = Inl e"
  | (crossing) sid sd p qty type where
      "validate req = Inr (sid, sd, p, qty, type)"
      "cross_prevention sid sd p type d = Some e"
  | (symbol) "e = SymbolNotFound"
  | (resources) "e = InsufficientFunds \<or> e = ExceedsSharesInCirculation \<or>
                 e = InsufficientFundsToShort"
  | (liquidity) "e = NoLiquidity"
  | (raised) "e = ErrorProcessingOrder"
proof (cases "validate req")
  case (Inl e')
  with assms validation show ?thesis by (simp add: submit_def)
next
  case (Inr v)
  obtain sid sd p qty type where v: "v = (sid, sd, p, qty, type)"
    by (cases v) auto
  show ?thesis
  proof (cases "cross_prevention sid sd p type d")
    case (Some c)
    with assms Inr v crossing show ?thesis
      by (simp add: submit_def)
  next
    case None
    note cp = None
    show ?thesis
    proof (cases "symbols d sid")
      case None
      with assms Inr v cp symbol show ?thesis by (simp add: submit_def)
    next
      case (Some symRow)
      note sy = Some
      show ?thesis
      proof (cases "resource_check J symRow (userCash_of userId d) (userPos_of userId sid d)
                      sd p qty type")
        case (Some r)
        with assms Inr v cp sy resource_check_error [OF Some] resources show ?thesis
          by (auto simp: submit_def)
      next
        case None
        note rc = None
        show ?thesis
        proof (cases "reserve userId (userPos_of userId sid d) sd p qty type d")
          case None
          with assms Inr v cp sy rc raised show ?thesis by (simp add: submit_def)
        next
          case (Some d1)
          with assms Inr v cp sy rc liquidity raised show ?thesis
            by (auto simp: submit_def split: if_splits
                     dest: market_order_error limit_order_error)
        qed
      qed
    qed
  qed
qed

lemma submit_rejection_unchanged:
  assumes "submit J userId req d = (Inl e, d')"
  shows "d' = d"
  using assms
  by (auto simp: submit_def split: sum.splits option.splits if_splits prod.splits
           dest: market_order_error limit_order_error)

lemma submit_CrossesBook:
  assumes "submit J userId req d = (Inl CrossesBook, d')"
  obtains sid sd p qty type where
    "validate req = Inr (sid, sd, p, qty, type)"
    "cross_prevention sid sd p type d = Some CrossesBook"
  using assms by (cases rule: submit_Inl_cases) (auto dest: validate_error)

lemma submit_not_invalid_price:
  assumes "validate req \<noteq> Inl InvalidPriceForLimitOrder"
  shows "fst (submit J userId req d) \<noteq> Inl InvalidPriceForLimitOrder"
proof
  assume "fst (submit J userId req d) = Inl InvalidPriceForLimitOrder"
  then have "submit J userId req d = (Inl InvalidPriceForLimitOrder, snd (submit J userId req d))"
    by (simp add: prod_eq_iff)
  then show False
    using assms by (cases rule: submit_Inl_cases) (auto dest: cross_prevention_error)
qed

text \<open>A limit order with a price that is not a number is never accepted.\<close>

lemma submit_NaN_raises:
  assumes "validate req = Inr (sid, sd, Some NaN, qty, ''limit'')"
  shows "\<exists>e. submit J userId req d = (Inl e, d)"
proof -
  have "\<exists>e. fst (submit J userId req d) = Inl e"
    using assms
    by (cases sd)
       (auto simp: submit_def reserve_def limit_order_def insert_order_def Let_def
             split: option.splits)
  then obtain e where "submit J userId req d = (Inl e, snd (submit J userId req d))"
    by (auto simp: prod_eq_iff)
  with submit_rejection_unchanged [OF this] show ?thesis by auto
qed



subsection \<open>Type normalisation\<close>

text \<open>
  Claim C10. A submission whose type is absent or the empty string is not rejected for the
  missing field: the type is normalised to \<open>limit\<close>, the submission is processed exactly as
  the same submission with type \<open>limit\<close>, and it is therefore rejected with the price error
  when its price is absent or a number that is not positive; it is accepted only with a
  positive price, and with a price that is not a number it ends in an error as well, with
  the store unchanged (the price check lets \<open>NaN\<close> pass and the first statement that
  carries it raises). A price sent with type \<open>market\<close> is discarded: the submission is
  processed exactly as the one without a price, and is never rejected for its price.
\<close>

theorem C10_type_normalisation:
  "normalizeType None = ''limit'' \<and> normalizeType (Some []) = ''limit''
   \<and> (r_type req = None \<or> r_type req = Some [] \<longrightarrow>
        submit J userId req d = submit J userId (req\<lparr>r_type := Some ''limit''\<rparr>) d)
   \<and> (r_type req = None \<or> r_type req = Some [] \<longrightarrow>
        r_symbol_id req = Some sid \<and> sid \<noteq> 0 \<and> r_side req = Some s \<and>
        (toLowerCase s = ''buy'' \<or> toLowerCase s = ''sell'') \<and> r_quantity req = Some q \<and> 0 < q \<longrightarrow>
        r_price req = None \<or> (\<exists>p. r_price req = Some (Num p) \<and> p \<le> 0) \<longrightarrow>
        submit J userId req d = (Inl InvalidPriceForLimitOrder, d))
   \<and> (r_type req = None \<or> r_type req = Some [] \<longrightarrow>
        (\<forall>resp d'. submit J userId req d = (Inr resp, d') \<longrightarrow>
           (\<exists>p. r_price req = Some (Num p) \<and> 0 < p)))
   \<and> (r_type req = None \<or> r_type req = Some [] \<longrightarrow> r_price req = Some NaN \<longrightarrow>
        (\<exists>e. submit J userId req d = (Inl e, d)))
   \<and> (normalizeType (r_type req) = ''market'' \<longrightarrow>
        submit J userId req d = submit J userId (req\<lparr>r_price := None\<rparr>) d \<and>
        fst (submit J userId req d) \<noteq> Inl InvalidPriceForLimitOrder)"
proof (intro conjI impI allI)
  show "normalizeType None = ''limit''" by (simp add: normalizeType_def)
  show "normalizeType (Some []) = ''limit''" by (simp add: normalizeType_def)
next
  assume "r_type req = None \<or> r_type req = Some []"
  then show "submit J userId req d = submit J userId (req\<lparr>r_type := Some ''limit''\<rparr>) d"
    by (simp add: submit_def validate_type_absent)
next
  assume t: "r_type req = None \<or> r_type req = Some []"
    and v: "r_symbol_id req = Some sid \<and> sid \<noteq> 0 \<and> r_side req = Some s \<and>
        (toLowerCase s = ''buy'' \<or> toLowerCase s = ''sell'') \<and> r_quantity req = Some q \<and> 0 < q"
    and p: "r_price req = None \<or> (\<exists>p. r_price req = Some (Num p) \<and> p \<le> 0)"
  from t have "normalizeType (r_type req) = ''limit''" by (rule normalizeType_absent)
  with v p have "validate req = Inl InvalidPriceForLimitOrder"
    by (auto simp: validate_def Let_def)
  then show "submit J userId req d = (Inl InvalidPriceForLimitOrder, d)"
    by (simp add: submit_def)
next
  fix resp d'
  assume t: "r_type req = None \<or> r_type req = Some []"
    and acc: "submit J userId req d = (Inr resp, d')"
  from t have lim: "normalizeType (r_type req) = ''limit''" by (rule normalizeType_absent)
  from acc obtain sid' sd p qty type where v: "validate req = Inr (sid', sd, p, qty, type)"
    by (cases "validate req") (auto simp: submit_def)
  then have "type = ''limit''"
    using lim by (auto simp: validate_def Let_def split: option.splits if_splits jsnum.splits)
  with v have v': "validate req = Inr (sid', sd, p, qty, ''limit'')" by simp
  from validate_price [OF v'] have pr: "p = r_price req" by simp
  from validate_limit_price [OF v']
  show "\<exists>p. r_price req = Some (Num p) \<and> 0 < p"
  proof
    assume "p = Some NaN"
    with v' submit_NaN_raises [of req sid' sd qty J userId d] acc show ?thesis by simp
  next
    assume "\<exists>limit. p = Some (Num limit) \<and> 0 < limit"
    with pr show ?thesis by simp
  qed
next
  assume t: "r_type req = None \<or> r_type req = Some []" and n: "r_price req = Some NaN"
  from t have lim: "normalizeType (r_type req) = ''limit''" by (rule normalizeType_absent)
  show "\<exists>e. submit J userId req d = (Inl e, d)"
  proof (cases "validate req")
    case (Inl e)
    then show ?thesis by (simp add: submit_def)
  next
    case (Inr v)
    with lim n obtain sid' sd qty where "validate req = Inr (sid', sd, Some NaN, qty, ''limit'')"
      by (auto simp: validate_def Let_def split: option.splits if_splits)
    then show ?thesis by (rule submit_NaN_raises)
  qed
next
  assume m: "normalizeType (r_type req) = ''market''"
  then show "submit J userId req d = submit J userId (req\<lparr>r_price := None\<rparr>) d"
    by (simp add: submit_def validate_market_price)
  from m show "fst (submit J userId req d) \<noteq> Inl InvalidPriceForLimitOrder"
    by (intro submit_not_invalid_price validate_market_not_price)
qed

theorem C10_type_normalisation_witness:
  "submit exact_arith 2 (ex_request ''buy'' None (Some (Num 90)) 5) ex_db =
     submit exact_arith 2 (ex_request ''buy'' (Some ''limit'') (Some (Num 90)) 5) ex_db
   \<and> submit exact_arith 2 (ex_request ''buy'' (Some []) None 5) ex_db
       = (Inl InvalidPriceForLimitOrder, ex_db)
   \<and> (\<exists>p. r_price (ex_request ''buy'' None (Some (Num 90)) 5) = Some (Num p) \<and> 0 < p)
   \<and> (\<exists>e. submit exact_arith 2 (ex_request ''buy'' None (Some NaN) 5) ex_db = (Inl e, ex_db))
   \<and> submit exact_arith 2 (ex_request ''buy'' (Some ''Market'') (Some (Num 90)) 5) ex_db =
     submit exact_arith 2 (ex_request ''buy'' (Some ''Market'') None 5) ex_db
   \<and> fst (submit exact_arith 2 (ex_request ''buy'' (Some ''Market'') (Some (Num 90)) 5) ex_db)
       \<noteq> Inl InvalidPriceForLimitOrder"
proof -
  note c = conjunct2 [OF conjunct2 [OF C10_type_normalisation]]
  have a: "submit exact_arith 2 (ex_request ''buy'' None (Some (Num 90)) 5) ex_db =
     submit exact_arith 2 (ex_request ''buy'' (Some ''limit'') (Some (Num 90)) 5) ex_db"
    using conjunct1 [OF c, of "ex_request ''buy'' None (Some (Num 90)) 5" exact_arith 2 ex_db]
    by (simp add: ex_request_def)
  have b: "submit exact_arith 2 (ex_request ''buy'' (Some []) None 5) ex_db =
     (Inl InvalidPriceForLimitOrder, ex_db)"
    using conjunct1 [OF conjunct2 [OF c],
        of "ex_request ''buy'' (Some []) None 5" 1 "''buy''" 5 exact_arith 2 ex_db]
    by (simp add: ex_request_def toLowerCase_def toLowerCase_char_def)
  have "fst (submit exact_arith 2 (ex_request ''buy'' None (Some (Num 90)) 5) ex_db)
          = Inr \<lparr>orderStatus = ''OPEN'', tradesExecuted = []\<rparr>"
    by (simp add: route_defs)
  then have "submit exact_arith 2 (ex_request ''buy'' None (Some (Num 90)) 5) ex_db
      = (Inr \<lparr>orderStatus = ''OPEN'', tradesExecuted = []\<rparr>,
         snd (submit exact_arith 2 (ex_request ''buy'' None (Some (Num 90)) 5) ex_db))"
    by (simp add: prod_eq_iff)
  with conjunct1 [OF conjunct2 [OF conjunct2 [OF c]],
        of "ex_request ''buy'' None (Some (Num 90)) 5" exact_arith 2 ex_db]
  have p: "\<exists>p. r_price (ex_request ''buy'' None (Some (Num 90)) 5) = Some (Num p) \<and> 0 < p"
    by (simp add: ex_request_def)
  have n: "\<exists>e. submit exact_arith 2 (ex_request ''buy'' None (Some NaN) 5) ex_db = (Inl e, ex_db)"
    using conjunct1 [OF conjunct2 [OF conjunct2 [OF conjunct2 [OF c]]],
        of "ex_request ''buy'' None (Some NaN) 5" exact_arith 2 ex_db]
    by (simp add: ex_request_def)
  have m: "submit exact_arith 2 (ex_request ''buy'' (Some ''Market'') (Some (Num 90)) 5) ex_db =
     submit exact_arith 2 (ex_request ''buy'' (Some ''Market'') None 5) ex_db
   \<and> fst (submit exact_arith 2 (ex_request ''buy'' (Some ''Market'') (Some (Num 90)) 5) ex_db)
       \<noteq> Inl InvalidPriceForLimitOrder"
    using conjunct2 [OF conjunct2 [OF conjunct2 [OF conjunct2 [OF c]]],
        of "ex_request ''buy'' (Some ''Market'') (Some (Num 90)) 5" exact_arith 2 ex_db]
    by (auto simp add: ex_request_def normalizeType_def toLowerCase_def toLowerCase_char_def)
  from a b p n m show ?thesis by blast
qed


subsection \<open>Best prices\<close>

lemma sql_min_None: "sql_min xs = None \<longleftrightarrow> xs = []"
  by (cases xs) (auto split: option.splits)

lemma sql_max_None: "sql_max xs = None \<longleftrightarrow> xs = []"
  by (cases xs) (auto split: option.splits)

lemma sql_min_Min: "xs \<noteq> [] \<Longrightarrow> sql_min xs = Some (Min (set xs))"
proof (induction xs)
  case Nil
  then show ?case by simp
next
  case (Cons x xs)
  show ?case
  proof (cases "xs = []")
    case True
    then show ?thesis by simp
  next
    case False
    with Cons.IH show ?thesis by (simp add: Min_insert)
  qed
qed

lemma sql_max_Max: "xs \<noteq> [] \<Longrightarrow> sql_max xs = Some (Max (set xs))"
proof (induction xs)
  case Nil
  then show ?case by simp
next
  case (Cons x xs)
  show ?case
  proof (cases "xs = []")
    case True
    then show ?thesis by simp
  next
    case False
    with Cons.IH show ?thesis by (simp add: Max_insert)
  qed
qed

lemma sql_min_le: "sql_min xs = Some m \<Longrightarrow> x \<in> set xs \<Longrightarrow> m \<le> x"
  using sql_min_Min [of xs] by (cases "xs = []") auto

lemma sql_max_ge: "sql_max xs = Some m \<Longrightarrow> x \<in> set xs \<Longrightarrow> x \<le> m"
  using sql_max_Max [of xs] by (cases "xs = []") auto

lemma bestAsk_Min:
  "bestAsk sid d =
     (if open_orders sid Sell d = [] then None
      else Some (Min (price ` set (open_orders sid Sell d))))"
  by (simp add: bestAsk_def sql_min_Min)

lemma bestBid_Max:
  "bestBid sid d =
     (if open_orders sid Buy d = [] then None
      else Some (Max (price ` set (open_orders sid Buy d))))"
  by (simp add: bestBid_def sql_max_Max)

subsection \<open>Cancellation of a sell order\<close>

lemma cancel_sell_credit:
  assumes "find (\<lambda>r. order_id r = oid \<and> user_id r = uid \<and> status r = OPEN) (orders d) = Some ord"
    and "side ord = Sell" and "users d uid = Some c" and "0 < quantity ord"
  shows "\<exists>d'. cancel uid oid d = (Inr (), d')
            \<and> users d' = (users d)(uid \<mapsto> c + price ord * quantity ord)
            \<and> orders d' = map (\<lambda>r. if order_id r = oid
                                      then r\<lparr>quantity := 0, status := CANCELLED\<rparr> else r) (orders d)
            \<and> positions d' = positions d"
  using assms by (simp add: cancel_def credit_def update_order_def)

text \<open>
  Claim C4 does not hold of the cancel route. A fully covered sell limit (10 shares at 100
  offered by user 1, who holds 100) reserves no collateral at submission: the balance stays
  10000. Its cancellation nevertheless credits \<open>100 \<times> 10\<close>, so the owner ends with 11000.
  An uncovered sell limit (5 shares at 120 by user 2, who holds none) has its collateral of
  600 debited and credited back within the submission, and the cancellation credits it
  once more: the owner ends with 10600. In both runs the order is cancelled with
  quantity 0 and no share has moved.
\<close>

theorem C4_cancel_credits_unreserved_sell:
  "userPos_of 1 1 ex_db = 100
   \<and> users ex_db 1 = Some 10000
   \<and> fst (submit exact_arith 1 (ex_request ''sell'' (Some ''limit'') (Some (Num 100)) 10) ex_db)
       = Inr \<lparr>orderStatus = ''OPEN'', tradesExecuted = []\<rparr>
   \<and> users covered_sell_db 1 = Some 10000
   \<and> fst (cancel 1 1 covered_sell_db) = Inr ()
   \<and> users (snd (cancel 1 1 covered_sell_db)) 1 = Some 11000
   \<and> map (\<lambda>r. (quantity r, status r)) (orders (snd (cancel 1 1 covered_sell_db))) = [(0, CANCELLED)]
   \<and> positions (snd (cancel 1 1 covered_sell_db)) (1, 1) = positions ex_db (1, 1)
   \<and> userPos_of 2 1 ex_db = 0
   \<and> users ex_db 2 = Some 10000
   \<and> users short_sell_db 2 = Some 10000
   \<and> fst (cancel 2 1 short_sell_db) = Inr ()
   \<and> users (snd (cancel 2 1 short_sell_db)) 2 = Some 10600"
  by (simp add: covered_sell_db_def short_sell_db_def route_defs)

subsection \<open>Burning shares\<close>

text \<open>
  Claim C8, as the route has it. A manager's burn of \<open>qty\<close> shares of an existing symbol is
  refused when the manager has no position row or holds fewer than \<open>qty\<close> shares; the
  symbol's outstanding share count is not consulted. An accepted burn subtracts \<open>qty\<close> from
  the manager's position and from the outstanding share count and changes nothing else.
\<close>

theorem C8_burn_position_check:
  assumes "symbols d sid = Some symRow" and "0 < qty"
  shows "(positions d (uid, sid) = None \<or> (\<exists>held. positions d (uid, sid) = Some held \<and> held < qty)
            \<longrightarrow> burn Manager uid sid (Some qty) d = (Inl InsufficientSharesToBurn, d))
       \<and> (\<forall>held. positions d (uid, sid) = Some held \<and> qty \<le> held \<longrightarrow>
            (\<exists>d'. burn Manager uid sid (Some qty) d = (Inr (), d')
                \<and> positions d' = (positions d)((uid, sid) \<mapsto> held - qty)
                \<and> symbols d' = (symbols d)(sid \<mapsto>
                     symRow\<lparr>outstanding_shares := outstanding_shares symRow - qty\<rparr>)
                \<and> users d' = users d \<and> orders d' = orders d \<and> trades d' = trades d))"
  using assms by (auto simp: burn_def)

theorem C8_burn_position_check_witness:
  "burn Manager 2 1 (Some 5) ex_db = (Inl InsufficientSharesToBurn, ex_db)
   \<and> (\<exists>d'. burn Manager 1 1 (Some 30) ex_db = (Inr (), d')
         \<and> positions d' (1, 1) = Some 70
         \<and> map_option outstanding_shares (symbols d' 1) = Some 70)"
proof -
  have s: "symbols ex_db 1 = Some \<lparr>outstanding_shares = 100, last_price = None, prev_price = None\<rparr>"
    by (simp add: ex_db_def)
  have a: "burn Manager 2 1 (Some 5) ex_db = (Inl InsufficientSharesToBurn, ex_db)"
    using C8_burn_position_check [OF s, of 5 2] by (simp add: ex_db_def)
  have "\<exists>d'. burn Manager 1 1 (Some 30) ex_db = (Inr (), d')
         \<and> positions d' (1, 1) = Some 70
         \<and> map_option outstanding_shares (symbols d' 1) = Some 70"
    using C8_burn_position_check [OF s, of 30 1] by (auto simp: ex_db_def)
  with a show ?thesis by blast
qed

text \<open>
  A burn is accepted although the symbol has fewer outstanding shares than are burned:
  after the short sale above the manager holds 150 of 100 outstanding shares, burns 150,
  and the outstanding share count becomes negative.
\<close>

theorem C8_burn_outstanding_counterexample:
  "map_option outstanding_shares (symbols short_sale_db 1) = Some 100
   \<and> positions short_sale_db (1, 1) = Some 150
   \<and> fst (burn Manager 1 1 (Some 150) short_sale_db) = Inr ()
   \<and> map_option outstanding_shares (symbols (snd (burn Manager 1 1 (Some 150) short_sale_db)) 1)
       = Some (- 50)"
  by (simp add: short_sale_db_def route_defs)

subsection \<open>Cross prevention\<close>

text \<open>
  Claim C5. For a well-formed limit submission at price \<open>p\<close>: the best ask is the minimum
  price among the symbol's open sell orders and the best bid the maximum among its open buy
  orders, when there is one; a buy with \<open>p \<ge> best ask\<close> and a sell with \<open>p \<le> best bid\<close>
  are rejected with \<open>CrossesBook\<close> and the store is returned unchanged; a limit order
  strictly inside the spread, or facing an empty opposite side, is not rejected for crossing.
\<close>

theorem C5_cross_prevention:
  assumes "validate req = Inr (sid, sd, Some (Num p), qty, ''limit'')"
  shows "bestAsk sid d =
           (if open_orders sid Sell d = [] then None
            else Some (Min (price ` set (open_orders sid Sell d))))
       \<and> bestBid sid d =
           (if open_orders sid Buy d = [] then None
            else Some (Max (price ` set (open_orders sid Buy d))))
       \<and> (\<forall>a. sd = Buy \<and> bestAsk sid d = Some a \<and> a \<le> p \<longrightarrow>
              submit J userId req d = (Inl CrossesBook, d))
       \<and> (\<forall>b. sd = Sell \<and> bestBid sid d = Some b \<and> p \<le> b \<longrightarrow>
              submit J userId req d = (Inl CrossesBook, d))
       \<and> (sd = Buy \<and> (bestAsk sid d = None \<or> (\<exists>a. bestAsk sid d = Some a \<and> p < a)) \<or>
           sd = Sell \<and> (bestBid sid d = None \<or> (\<exists>b. bestBid sid d = Some b \<and> b < p)) \<longrightarrow>
              fst (submit J userId req d) \<noteq> Inl CrossesBook)"
proof (intro conjI allI impI)
  show "bestAsk sid d =
           (if open_orders sid Sell d = [] then None
            else Some (Min (price ` set (open_orders sid Sell d))))"
    by (rule bestAsk_Min)
  show "bestBid sid d =
           (if open_orders sid Buy d = [] then None
            else Some (Max (price ` set (open_orders sid Buy d))))"
    by (rule bestBid_Max)
next
  fix a assume "sd = Buy \<and> bestAsk sid d = Some a \<and> a \<le> p"
  then have "cross_prevention sid sd (Some (Num p)) ''limit'' d = Some CrossesBook"
    by (simp add: cross_prevention_def num_def)
  with assms show "submit J userId req d = (Inl CrossesBook, d)"
    by (simp add: submit_def)
next
  fix b assume "sd = Sell \<and> bestBid sid d = Some b \<and> p \<le> b"
  then have "cross_prevention sid sd (Some (Num p)) ''limit'' d = Some CrossesBook"
    by (simp add: cross_prevention_def num_def)
  with assms show "submit J userId req d = (Inl CrossesBook, d)"
    by (simp add: submit_def)
next
  assume inside:
    "sd = Buy \<and> (bestAsk sid d = None \<or> (\<exists>a. bestAsk sid d = Some a \<and> p < a)) \<or>
     sd = Sell \<and> (bestBid sid d = None \<or> (\<exists>b. bestBid sid d = Some b \<and> b < p))"
  then have none: "cross_prevention sid sd (Some (Num p)) ''limit'' d = None"
    by (auto simp: cross_prevention_def num_def)
  show "fst (submit J userId req d) \<noteq> Inl CrossesBook"
  proof
    assume "fst (submit J userId req d) = Inl CrossesBook"
    then have "submit J userId req d = (Inl CrossesBook, snd (submit J userId req d))"
      by (simp add: prod_eq_iff)
    then show False
      using assms none by (cases rule: submit_CrossesBook) simp
  qed
qed

theorem C5_cross_prevention_witness:
  "submit exact_arith 2 (ex_request ''buy'' (Some ''limit'') (Some (Num 100)) 5) covered_sell_db
     = (Inl CrossesBook, covered_sell_db)
   \<and> fst (submit exact_arith 2 (ex_request ''buy'' (Some ''limit'') (Some (Num 99)) 5) covered_sell_db)
     \<noteq> Inl CrossesBook
   \<and> submit exact_arith 1 (ex_request ''sell'' (Some ''limit'') (Some (Num 100)) 5) resting_buy_db
     = (Inl CrossesBook, resting_buy_db)
   \<and> fst (submit exact_arith 1 (ex_request ''sell'' (Some ''limit'') (Some (Num 101)) 5) resting_buy_db)
     \<noteq> Inl CrossesBook
   \<and> fst (submit exact_arith 2 (ex_request ''buy'' (Some ''limit'') (Some (Num 100)) 5) ex_db) \<noteq> Inl CrossesBook"
proof -
  have ask: "bestAsk 1 covered_sell_db = Some 100"
    by (simp add: covered_sell_db_def route_defs)
  have bid: "bestBid 1 resting_buy_db = Some 100"
    by (simp add: resting_buy_db_def route_defs)
  have none: "bestAsk 1 ex_db = None"
    by (simp add: route_defs)
  have v1: "validate (ex_request ''buy'' (Some ''limit'') (Some (Num 100)) 5)
              = Inr (1, Buy, Some (Num 100), 5, ''limit'')"
    and v2: "validate (ex_request ''buy'' (Some ''limit'') (Some (Num 99)) 5)
              = Inr (1, Buy, Some (Num 99), 5, ''limit'')"
    and v3: "validate (ex_request ''sell'' (Some ''limit'') (Some (Num 100)) 5)
              = Inr (1, Sell, Some (Num 100), 5, ''limit'')"
    and v4: "validate (ex_request ''sell'' (Some ''limit'') (Some (Num 101)) 5)
              = Inr (1, Sell, Some (Num 101), 5, ''limit'')"
    by (simp_all add: route_defs)
  note buy_rejected = C5_cross_prevention [OF v1, where d = covered_sell_db and J = exact_arith and userId = 2,
      THEN conjunct2, THEN conjunct2, THEN conjunct1, rule_format, of 100]
  note buy_inside = C5_cross_prevention [OF v2, where d = covered_sell_db and J = exact_arith and userId = 2,
      THEN conjunct2, THEN conjunct2, THEN conjunct2, THEN conjunct2, rule_format]
  note sell_rejected = C5_cross_prevention [OF v3, where d = resting_buy_db and J = exact_arith and userId = 1,
      THEN conjunct2, THEN conjunct2, THEN conjunct2, THEN conjunct1, rule_format, of 100]
  note sell_inside = C5_cross_prevention [OF v4, where d = resting_buy_db and J = exact_arith and userId = 1,
      THEN conjunct2, THEN conjunct2, THEN conjunct2, THEN conjunct2, rule_format]
  note buy_empty = C5_cross_prevention [OF v1, where d = ex_db and J = exact_arith and userId = 2,
      THEN conjunct2, THEN conjunct2, THEN conjunct2, THEN conjunct2, rule_format]
  show ?thesis
  proof (intro conjI)
    show "submit exact_arith 2 (ex_request ''buy'' (Some ''limit'') (Some (Num 100)) 5) covered_sell_db
            = (Inl CrossesBook, covered_sell_db)"
      using ask by (intro buy_rejected) simp
    show "fst (submit exact_arith 2 (ex_request ''buy'' (Some ''limit'') (Some (Num 99)) 5) covered_sell_db)
            \<noteq> Inl CrossesBook"
      using ask by (intro buy_inside) simp
    show "submit exact_arith 1 (ex_request ''sell'' (Some ''limit'') (Some (Num 100)) 5) resting_buy_db
            = (Inl CrossesBook, resting_buy_db)"
      using bid by (intro sell_rejected) simp
    show "fst (submit exact_arith 1 (ex_request ''sell'' (Some ''limit'') (Some (Num 101)) 5) resting_buy_db)
            \<noteq> Inl CrossesBook"
      using bid by (intro sell_inside) simp
    show "fst (submit exact_arith 2 (ex_request ''buy'' (Some ''limit'') (Some (Num 100)) 5) ex_db)
            \<noteq> Inl CrossesBook"
      using none by (intro buy_empty) simp
  qed
qed



subsection \<open>Accepted limit orders rest\<close>

lemma reserve_frame:
  assumes "reserve userId userPos sd p qty type d = Some d1"
  shows "orders d1 = orders d" "trades d1 = trades d" "next_order_id d1 = next_order_id d"
    "symbols d1 = symbols d" "positions d1 = positions d"
  using assms by (auto simp: reserve_def debit_def Let_def split: if_splits)

lemma open_orders_cong: "orders d = orders d' \<Longrightarrow> open_orders sid sd d = open_orders sid sd d'"
  by (simp add: open_orders_def)

lemma open_orders_insert_order:
  assumes "insert_order userId sid sd p q d = Some d1"
  shows "open_orders sid sd' d1 =
     open_orders sid sd' d @
       (if sd = sd' then [\<lparr>order_id = next_order_id d, user_id = userId, symbol_id = sid,
                            side = sd, price = num p, quantity = q, status = OPEN\<rparr>] else [])"
  using assms by (auto simp: open_orders_def insert_order_def split: if_splits)

lemma no_ask_at_or_below:
  assumes "cross_prevention sid Buy (Some (Num limit)) ''limit'' d = None"
  shows "filter (\<lambda>r. price r \<le> limit) (open_orders sid Sell d) = []"
proof -
  have "\<not> price r \<le> limit" if "r \<in> set (open_orders sid Sell d)" for r
  proof (cases "bestAsk sid d")
    case None
    with that show ?thesis by (simp add: bestAsk_def sql_min_None)
  next
    case (Some a)
    with assms have "limit < a"
      by (simp add: cross_prevention_def num_def split: if_splits)
    moreover from Some that have "a \<le> price r"
      by (auto simp: bestAsk_def intro: sql_min_le)
    ultimately show ?thesis by simp
  qed
  then show ?thesis by (simp add: filter_empty_conv)
qed

lemma no_bid_at_or_above:
  assumes "cross_prevention sid Sell (Some (Num limit)) ''limit'' d = None"
  shows "filter (\<lambda>r. price r \<ge> limit) (open_orders sid Buy d) = []"
proof -
  have "\<not> price r \<ge> limit" if "r \<in> set (open_orders sid Buy d)" for r
  proof (cases "bestBid sid d")
    case None
    with that show ?thesis by (simp add: bestBid_def sql_max_None)
  next
    case (Some b)
    with assms have "b < limit"
      by (simp add: cross_prevention_def num_def split: if_splits)
    moreover from Some that have "price r \<le> b"
      by (auto simp: bestBid_def intro: sql_max_ge)
    ultimately show ?thesis by simp
  qed
  then show ?thesis by (simp add: filter_empty_conv)
qed

text \<open>The books a new limit order is matched against, after reservation and insertion.\<close>

lemma accepted_limit_buy_book:
  assumes "cross_prevention sid Buy (Some (Num limit)) ''limit'' d = None"
    and "reserve userId userPos Buy p qty type d = Some d1"
    and "insert_order userId sid Buy pr qty d1 = Some d2"
  shows "limit_buy_book sid (Some (Num limit)) d2 = []"
proof -
  have "open_orders sid Sell d1 = open_orders sid Sell d"
    by (rule open_orders_cong) (rule reserve_frame [OF assms(2)])
  with no_ask_at_or_below [OF assms(1)] show ?thesis
    by (simp add: limit_buy_book_def open_orders_insert_order [OF assms(3)])
qed

lemma accepted_limit_sell_book:
  assumes "cross_prevention sid Sell (Some (Num limit)) ''limit'' d = None"
    and "reserve userId userPos Sell p qty type d = Some d1"
    and "insert_order userId sid Sell pr qty d1 = Some d2"
  shows "limit_sell_book sid (Some (Num limit)) d2 = []"
proof -
  have "open_orders sid Buy d1 = open_orders sid Buy d"
    by (rule open_orders_cong) (rule reserve_frame [OF assms(2)])
  with no_bid_at_or_above [OF assms(1)] show ?thesis
    by (simp add: limit_sell_book_def open_orders_insert_order [OF assms(3)])
qed

lemma credit_frame:
  "orders (credit a u d) = orders d" "trades (credit a u d) = trades d"
  by (simp_all add: credit_def)

lemma refund_frame:
  "orders (refund_buy userId p qty remainingQty executed d) = orders d"
  "trades (refund_buy userId p qty remainingQty executed d) = trades d"
  "orders (refund_sell userId p qty userPos remainingQty d) = orders d"
  "trades (refund_sell userId p qty userPos remainingQty d) = trades d"
  by (simp_all add: refund_buy_def refund_sell_def Let_def credit_frame)

lemma limit_order_inserts:
  assumes "limit_order userId sid sd p qty type symRow userPos d0 d = (Inr resp, d')"
  obtains d1 where "insert_order userId sid sd p qty d = Some d1"
  using assms by (cases "insert_order userId sid sd p qty d") (auto simp: limit_order_def Let_def)

lemma limit_order_without_candidates:
  assumes ins: "insert_order userId sid sd p qty d = Some d1"
    and book: "case sd of Buy \<Rightarrow> limit_buy_book sid p d1 = []
                 | Sell \<Rightarrow> limit_sell_book sid p d1 = []"
    and qty: "0 < qty"
    and res: "limit_order userId sid sd p qty type symRow userPos d0 d = (r, d')"
  shows "r = Inr \<lparr>orderStatus = ''OPEN'', tradesExecuted = []\<rparr>"
    and "trades d' = trades d"
    and "last (orders d') =
           \<lparr>order_id = next_order_id d, user_id = userId, symbol_id = sid, side = sd,
            price = num p, quantity = qty, status = OPEN\<rparr>"
proof -
  have d1: "d1 = d\<lparr>orders := orders d @ [\<lparr>order_id = next_order_id d, user_id = userId,
               symbol_id = sid, side = sd, price = num p, quantity = qty, status = OPEN\<rparr>],
             next_order_id := next_order_id d + 1\<rparr>"
    using ins by (auto simp: insert_order_def split: if_splits)
  from res ins book qty
  have r: "r = Inr \<lparr>orderStatus = ''OPEN'', tradesExecuted = []\<rparr>"
    by (cases sd) (auto simp: limit_order_def Let_def)
  from res ins book qty
  have d': "d' = delete_zero_positions
      ((if sd = Sell \<and> type = ''limit'' then refund_sell userId p qty userPos qty else (\<lambda>x. x))
       ((if sd = Buy \<and> type = ''limit'' then refund_buy userId p qty qty [] else (\<lambda>x. x))
        (update_order_quantity (next_order_id d) qty d1)))"
    by (cases sd) (auto simp: limit_order_def Let_def)
  show "r = Inr \<lparr>orderStatus = ''OPEN'', tradesExecuted = []\<rparr>" by (rule r)
  show "trades d' = trades d"
    by (simp add: d' d1 delete_zero_positions_def refund_frame update_order_quantity_def)
  show "last (orders d') =
           \<lparr>order_id = next_order_id d, user_id = userId, symbol_id = sid, side = sd,
            price = num p, quantity = qty, status = OPEN\<rparr>"
    by (simp add: d' d1 delete_zero_positions_def refund_frame update_order_quantity_def last_map)
qed

text \<open>
  Claim C9. In a serial execution every accepted limit submission executes no fill: it
  answers \<open>OPEN\<close> with an empty trade list, appends no trade row, and its order rests in
  the book with its full quantity. (The books selected for the limit-taker loops are empty,
  by \<open>accepted_limit_buy_book\<close> and \<open>accepted_limit_sell_book\<close>, so trades arise in the
  market path only.)
\<close>

theorem C9_accepted_limit_rests:
  assumes valid: "validate req = Inr (sid, sd, p, qty, ''limit'')"
    and accepted: "submit J userId req d = (Inr resp, d')"
  shows "resp = \<lparr>orderStatus = ''OPEN'', tradesExecuted = []\<rparr>
       \<and> trades d' = trades d
       \<and> last (orders d') =
           \<lparr>order_id = next_order_id d, user_id = userId, symbol_id = sid, side = sd,
            price = num p, quantity = qty, status = OPEN\<rparr>"
proof -
  have qty: "0 < qty" by (rule validate_quantity [OF valid])
  from accepted valid have cp: "cross_prevention sid sd p ''limit'' d = None"
    by (simp add: submit_def split: option.splits)
  from accepted valid cp obtain symRow where sy: "symbols d sid = Some symRow"
    by (auto simp: submit_def split: option.splits)
  from accepted valid cp sy obtain d1 where
    re: "reserve userId (userPos_of userId sid d) sd p qty ''limit'' d = Some d1"
    by (auto simp: submit_def split: option.splits)
  from accepted valid cp sy re
  have lo: "limit_order userId sid sd p qty ''limit'' symRow (userPos_of userId sid d) d d1
              = (Inr resp, d')"
    by (simp add: submit_def split: option.splits)
  from lo obtain d2 where ins: "insert_order userId sid sd p qty d1 = Some d2"
    by (rule limit_order_inserts)
  then have "p \<noteq> Some NaN" by (auto simp: insert_order_def split: if_splits)
  with validate_limit_price [OF valid] obtain limit where p: "p = Some (Num limit)"
    by blast
  have book: "case sd of
      Buy \<Rightarrow> limit_buy_book sid p d2 = []
    | Sell \<Rightarrow> limit_sell_book sid p d2 = []"
    using cp p re ins
    by (cases sd) (simp_all add: accepted_limit_buy_book accepted_limit_sell_book)
  from limit_order_without_candidates [OF ins book qty lo]
  show ?thesis by (simp add: reserve_frame [OF re])
qed

theorem C9_accepted_limit_rests_witness:
  "fst (submit exact_arith 1 (ex_request ''sell'' (Some ''limit'') (Some (Num 101)) 5) resting_buy_db)
     = Inr \<lparr>orderStatus = ''OPEN'', tradesExecuted = []\<rparr>
   \<and> trades (snd (submit exact_arith 1 (ex_request ''sell'' (Some ''limit'') (Some (Num 101)) 5) resting_buy_db))
     = trades resting_buy_db
   \<and> last (orders (snd (submit exact_arith 1 (ex_request ''sell'' (Some ''limit'') (Some (Num 101)) 5)
       resting_buy_db)))
     = \<lparr>order_id = 2, user_id = 1, symbol_id = 1, side = Sell, price = 101, quantity = 5,
        status = OPEN\<rparr>"
proof -
  let ?req = "ex_request ''sell'' (Some ''limit'') (Some (Num 101)) 5"
  have v: "validate ?req = Inr (1, Sell, Some (Num 101), 5, ''limit'')"
    by (simp add: route_defs)
  have f: "fst (submit exact_arith 1 ?req resting_buy_db) = Inr \<lparr>orderStatus = ''OPEN'', tradesExecuted = []\<rparr>"
    by (simp add: resting_buy_db_def route_defs)
  from f have a: "submit exact_arith 1 ?req resting_buy_db =
      (Inr \<lparr>orderStatus = ''OPEN'', tradesExecuted = []\<rparr>, snd (submit exact_arith 1 ?req resting_buy_db))"
    by (simp add: prod_eq_iff)
  have n: "next_order_id resting_buy_db = 2"
    by (simp add: resting_buy_db_def route_defs)
  from C9_accepted_limit_rests [OF v a] f n show ?thesis
    by (simp add: num_def)
qed


section \<open>Matching\<close>

subsection \<open>The matcher's fills\<close>

lemma spec_market_fills_stop:
  assumes "\<not> 0 < rem \<or> (sd = Buy \<and> js_less J cash (fill_cost J ord (min rem (quantity ord))))"
  shows "spec_market_fills J sd cash rem (ord # book) = []"
  using assms by (cases sd) (auto simp: spec_market_fills_def)

lemma spec_market_fills_step:
  assumes "0 < rem"
    and "\<not> (sd = Buy \<and> js_less J cash (fill_cost J ord (min rem (quantity ord))))"
  shows "spec_market_fills J sd cash rem (ord # book) =
           (ord, min rem (quantity ord)) #
           spec_market_fills J sd
             (if sd = Buy then js_minus J cash (fill_cost J ord (min rem (quantity ord))) else cash)
             (rem - min rem (quantity ord)) book"
  using assms by (cases sd) (auto simp: spec_market_fills_def)

lemma spec_market_fills_Nil [simp]: "spec_market_fills J sd cash rem [] = []"
  by (cases sd) (simp_all add: spec_market_fills_def)

text \<open>The makers filled are a prefix of the book.\<close>

lemma spec_market_fills_prefix:
  "map fst (spec_market_fills J sd cash rem book) =
     take (length (spec_market_fills J sd cash rem book)) book"
proof (induction book arbitrary: cash rem)
  case Nil
  then show ?case by simp
next
  case (Cons ord book)
  show ?case
  proof (cases "0 < rem \<and>
      \<not> (sd = Buy \<and> js_less J cash (fill_cost J ord (min rem (quantity ord))))")
    case True
    then show ?thesis by (simp add: spec_market_fills_step Cons.IH)
  next
    case False
    then show ?thesis by (simp add: spec_market_fills_stop)
  qed
qed

lemma spec_fills_prefix:
  "map fst (spec_fills rem book) = take (length (spec_fills rem book)) book"
  by (induction book arbitrary: rem) simp_all

text \<open>Each fill takes the minimum of the residual and the maker's quantity.\<close>

lemma spec_market_fills_quantity:
  assumes "i < length (spec_market_fills J sd cash rem book)"
  shows "snd (spec_market_fills J sd cash rem book ! i) =
           min (rem - sum_list (map snd (take i (spec_market_fills J sd cash rem book))))
               (quantity (fst (spec_market_fills J sd cash rem book ! i)))"
  using assms
proof (induction book arbitrary: cash rem i)
  case Nil
  then show ?case by simp
next
  case (Cons ord book)
  let ?q = "min rem (quantity ord)"
  let ?c = "if sd = Buy then js_minus J cash (fill_cost J ord ?q) else cash"
  let ?F = "spec_market_fills J sd ?c (rem - ?q) book"
  show ?case
  proof (cases "0 < rem \<and> \<not> (sd = Buy \<and> js_less J cash (fill_cost J ord ?q))")
    case False
    then have "spec_market_fills J sd cash rem (ord # book) = []"
      by (simp add: spec_market_fills_stop)
    with Cons.prems show ?thesis by simp
  next
    case True
    then have F: "spec_market_fills J sd cash rem (ord # book) = (ord, ?q) # ?F"
      by (simp add: spec_market_fills_step)
    show ?thesis
    proof (cases i)
      case 0
      then show ?thesis by (simp add: F)
    next
      case (Suc j)
      with Cons.prems F have "j < length ?F" by simp
      from Cons.IH [OF this] have
        "snd (?F ! j) = min (rem - ?q - sum_list (map snd (take j ?F))) (quantity (fst (?F ! j)))" .
      moreover have "rem - ?q - sum_list (map snd (take j ?F)) =
                     rem - (?q + sum_list (map snd (take j ?F)))" by simp
      ultimately show ?thesis by (simp only: F Suc nth_Cons_Suc take_Suc_Cons list.map snd_conv sum_list.Cons)
    qed
  qed
qed

lemma spec_fills_quantity:
  assumes "i < length (spec_fills rem book)"
  shows "snd (spec_fills rem book ! i) =
           min (rem - sum_list (map snd (take i (spec_fills rem book))))
               (quantity (fst (spec_fills rem book ! i)))"
  using spec_market_fills_quantity [of i J Sell cash rem book] assms
  by (simp add: spec_market_fills_def)

lemma cash_left_Cons:
  "cash_left J cash (f # fills) = cash_left J (js_minus J cash (fill_cost J (fst f) (snd f))) fills"
  by (simp add: cash_left_def)

lemma cash_left_Nil: "cash_left J cash [] = cash"
  by (simp add: cash_left_def)

text \<open>Every fill of a buy is covered by the cash left after the fills before it.\<close>

lemma spec_market_fills_affordable:
  assumes "i < length (spec_market_fills J Buy cash rem book)"
  shows "\<not> js_less J (cash_left J cash (take i (spec_market_fills J Buy cash rem book)))
             (fill_cost J (fst (spec_market_fills J Buy cash rem book ! i))
                          (snd (spec_market_fills J Buy cash rem book ! i)))"
  using assms
proof (induction book arbitrary: cash rem i)
  case Nil
  then show ?case by simp
next
  case (Cons ord book)
  let ?q = "min rem (quantity ord)"
  let ?c = "js_minus J cash (fill_cost J ord ?q)"
  let ?F = "spec_market_fills J Buy ?c (rem - ?q) book"
  show ?case
  proof (cases "0 < rem \<and> \<not> js_less J cash (fill_cost J ord ?q)")
    case False
    then have "spec_market_fills J Buy cash rem (ord # book) = []"
      by (simp add: spec_market_fills_stop)
    with Cons.prems show ?thesis by simp
  next
    case True
    then have F: "spec_market_fills J Buy cash rem (ord # book) = (ord, ?q) # ?F"
      by (simp add: spec_market_fills_step)
    show ?thesis
    proof (cases i)
      case 0
      with True show ?thesis by (simp add: F cash_left_Nil)
    next
      case (Suc j)
      with Cons.prems F have "j < length ?F" by simp
      from Cons.IH [OF this] show ?thesis
        by (simp add: F Suc cash_left_Cons)
    qed
  qed
qed

text \<open>
  The matcher stops before the end of the book with a residual left only for a buy, at a
  candidate whose fill exceeds the cash left.
\<close>

lemma spec_market_fills_stops:
  assumes "0 \<le> rem"
    and "length (spec_market_fills J sd cash rem book) < length book"
    and "sum_list (map snd (spec_market_fills J sd cash rem book)) < rem"
  shows "sd = Buy \<and>
         js_less J (cash_left J cash (spec_market_fills J sd cash rem book))
           (fill_cost J (book ! length (spec_market_fills J sd cash rem book))
              (min (rem - sum_list (map snd (spec_market_fills J sd cash rem book)))
                   (quantity (book ! length (spec_market_fills J sd cash rem book)))))"
  using assms
proof (induction book arbitrary: cash rem)
  case Nil
  then show ?case by simp
next
  case (Cons ord book)
  let ?q = "min rem (quantity ord)"
  let ?c = "if sd = Buy then js_minus J cash (fill_cost J ord ?q) else cash"
  let ?F = "spec_market_fills J sd ?c (rem - ?q) book"
  show ?case
  proof (cases "0 < rem \<and> \<not> (sd = Buy \<and> js_less J cash (fill_cost J ord ?q))")
    case False
    then have F: "spec_market_fills J sd cash rem (ord # book) = []"
      by (simp add: spec_market_fills_stop)
    with Cons.prems have "0 < rem" by simp
    with False have "sd = Buy \<and> js_less J cash (fill_cost J ord ?q)" by simp
    with F show ?thesis by (simp add: cash_left_Nil)
  next
    case True
    then have F: "spec_market_fills J sd cash rem (ord # book) = (ord, ?q) # ?F"
      by (simp add: spec_market_fills_step)
    from True have "0 \<le> rem - ?q" by simp
    moreover from Cons.prems(2) have "length ?F < length book" by (simp add: F)
    moreover from Cons.prems(3) have "sum_list (map snd ?F) < rem - ?q" by (simp add: F)
    ultimately have IH: "sd = Buy \<and>
         js_less J (cash_left J ?c ?F)
           (fill_cost J (book ! length ?F)
              (min (rem - ?q - sum_list (map snd ?F)) (quantity (book ! length ?F))))"
      by (rule Cons.IH)
    have "rem - ?q - sum_list (map snd ?F) = rem - (?q + sum_list (map snd ?F))" by simp
    with IH F show ?thesis
      by (auto simp: cash_left_Cons)
  qed
qed

subsection \<open>The market loop\<close>

lemma market_fill_returns:
  assumes "users d userId \<noteq> None" and "users d (user_id ord) \<noteq> None"
  shows "\<exists>d1. market_fill userId sid sd ord q d = Some d1"
  using assms by (auto simp: market_fill_def insert_trade_def market_trade_def Let_def)

lemma market_fill_raises:
  assumes "users d userId = None"
  shows "market_fill userId sid sd ord q d = None"
  using assms by (auto simp: market_fill_def insert_trade_def market_trade_def Let_def)

lemma market_fill_frame:
  assumes "market_fill userId sid sd ord q d = Some d1"
  shows "trades d1 = trades d @ [market_trade userId sid sd ord q]"
    and "symbols d1 = symbols d"
    and "users d1 u = None \<longleftrightarrow> users d u = None"
  using assms
  by (auto simp: market_fill_def Let_def insert_trade_def update_order_def credit_def debit_def
        position_add_def position_sub_def split: option.splits if_splits)

text \<open>
  A run of the loop that returns has executed exactly the matcher's fills, in their order.
\<close>

lemma market_loop_fills:
  assumes "0 \<le> rem"
    and "market_loop J userId sid sd book rem cash executed d = Some (d1, rem', executed')"
  shows "executed' = executed @
           map (\<lambda>(m, q). (price m, q)) (spec_market_fills J sd cash rem book)
       \<and> trades d1 = trades d @
           map (\<lambda>(m, q). market_trade userId sid sd m q) (spec_market_fills J sd cash rem book)
       \<and> rem' = rem - sum_list (map snd (spec_market_fills J sd cash rem book))
       \<and> symbols d1 = symbols d"
  using assms
proof (induction book arbitrary: rem cash executed d)
  case Nil
  then show ?case by simp
next
  case (Cons ord book)
  let ?q = "min rem (quantity ord)"
  let ?c = "if sd = Buy then js_minus J cash (fill_cost J ord ?q) else cash"
  show ?case
  proof (cases "rem = 0 \<or> (sd = Buy \<and> js_less J cash (fill_cost J ord ?q))")
    case True
    with Cons.prems have "d1 = d \<and> rem' = rem \<and> executed' = executed"
      by (auto split: if_splits)
    moreover from True have "spec_market_fills J sd cash rem (ord # book) = []"
      by (intro spec_market_fills_stop) auto
    ultimately show ?thesis by simp
  next
    case False
    with Cons.prems have pos: "0 < rem" and rest: "0 \<le> rem - ?q"
      by auto
    from False Cons.prems obtain d2 where
      fill: "market_fill userId sid sd ord ?q d = Some d2"
      by (cases "market_fill userId sid sd ord ?q d") auto
    with False Cons.prems
    have loop: "market_loop J userId sid sd book (rem - ?q) ?c (executed @ [(price ord, ?q)]) d2
          = Some (d1, rem', executed')"
      by auto
    from pos False have F: "spec_market_fills J sd cash rem (ord # book) =
        (ord, ?q) # spec_market_fills J sd ?c (rem - ?q) book"
      by (simp add: spec_market_fills_step)
    from Cons.IH [OF rest loop] market_fill_frame(1,2) [OF fill]
    show ?thesis by (simp add: F)
  qed
qed

text \<open>The loop returns when the taker and the makers of the book have a \<open>users\<close> row.\<close>

lemma market_loop_returns:
  assumes "users d userId \<noteq> None" and "\<forall>m \<in> set book. users d (user_id m) \<noteq> None"
  shows "\<exists>r. market_loop J userId sid sd book rem cash executed d = Some r"
  using assms
proof (induction book arbitrary: rem cash executed d)
  case Nil
  then show ?case by simp
next
  case (Cons ord book)
  let ?q = "min rem (quantity ord)"
  show ?case
  proof (cases "rem = 0 \<or> (sd = Buy \<and> js_less J cash (fill_cost J ord ?q))")
    case True
    then show ?thesis by auto
  next
    case False
    from Cons.prems obtain d2 where fill: "market_fill userId sid sd ord ?q d = Some d2"
      using market_fill_returns [of d userId ord sid sd ?q] by auto
    from Cons.prems market_fill_frame(3) [OF fill]
    have "users d2 userId \<noteq> None" and "\<forall>m \<in> set book. users d2 (user_id m) \<noteq> None"
      by simp_all
    from Cons.IH [OF this] False fill show ?thesis by simp
  qed
qed

text \<open>It raises at its first fill when the taker has no \<open>users\<close> row.\<close>

lemma market_loop_raises:
  assumes "0 \<le> rem" and "users d userId = None"
    and "spec_market_fills J sd cash rem book \<noteq> []"
  shows "market_loop J userId sid sd book rem cash executed d = None"
proof (cases book)
  case Nil
  with assms show ?thesis by simp
next
  case (Cons ord rest)
  with assms(3) spec_market_fills_stop [of rem sd J cash ord rest]
  have "0 < rem" and "\<not> (sd = Buy \<and> js_less J cash (fill_cost J ord (min rem (quantity ord))))"
    by auto
  with Cons market_fill_raises [OF assms(2)] show ?thesis by auto
qed

lemma reserve_market: "reserve userId userPos sd p qty ''market'' d = Some d"
  by (simp add: reserve_def)

lemma submit_market:
  assumes "validate req = Inr (sid, sd, p, qty, ''market'')"
    and "symbols d sid = Some symRow"
    and "resource_check J symRow (userCash_of userId d) (userPos_of userId sid d) sd p qty
           ''market'' = None"
  shows "submit J userId req d = market_order J userId sid sd qty symRow (userCash_of userId d) d d"
proof -
  have "cross_prevention sid sd p ''market'' d = None"
    by (simp add: cross_prevention_def)
  with assms show ?thesis
    by (simp add: submit_def reserve_market)
qed

lemma submit_market_accepted:
  assumes "validate req = Inr (sid, sd, p, qty, ''market'')"
    and "submit J userId req d = (Inr resp, d')"
  obtains symRow where "symbols d sid = Some symRow"
    and "market_order J userId sid sd qty symRow (userCash_of userId d) d d = (Inr resp, d')"
  using assms
  by (auto simp: submit_def reserve_market split: option.splits)

lemma stamp_prices_frame:
  "trades (delete_zero_positions (stamp_prices sid symRow executed d)) = trades d"
  "orders (delete_zero_positions (stamp_prices sid symRow executed d)) = orders d"
  "users (delete_zero_positions (stamp_prices sid symRow executed d)) = users d"
  by (simp_all add: delete_zero_positions_def stamp_prices_def update_prices_def Let_def)

lemma stamp_prices_last:
  assumes "symbols d sid = Some symRow'"
  shows "map_option last_price (symbols (delete_zero_positions (stamp_prices sid symRow executed d)) sid)
           = Some (Some (fst (last executed)))"
  using assms by (simp add: delete_zero_positions_def stamp_prices_def update_prices_def Let_def)

text \<open>What an accepted market order has done.\<close>

lemma market_order_accepted:
  assumes "0 \<le> qty"
    and "market_order J userId sid sd qty symRow userCash d0 d = (Inr resp, d')"
  shows "spec_market_fills J sd (js_parseFloat J userCash) qty (market_book sid sd d) \<noteq> []"
    and "tradesExecuted resp = map (\<lambda>(m, q). (price m, q))
           (spec_market_fills J sd (js_parseFloat J userCash) qty (market_book sid sd d))"
    and "trades d' = trades d @ map (\<lambda>(m, q). market_trade userId sid sd m q)
           (spec_market_fills J sd (js_parseFloat J userCash) qty (market_book sid sd d))"
    and "orderStatus resp =
           (if sum_list (map snd
                 (spec_market_fills J sd (js_parseFloat J userCash) qty (market_book sid sd d))) = qty
            then ''FILLED'' else ''PARTIAL'')"
proof -
  let ?F = "spec_market_fills J sd (js_parseFloat J userCash) qty (market_book sid sd d)"
  from assms(2) obtain d1 rem executed where
    loop: "market_loop J userId sid sd (market_book sid sd d) qty (js_parseFloat J userCash) [] d
             = Some (d1, rem, executed)"
    and ne: "executed \<noteq> []"
    and resp: "resp = \<lparr>orderStatus = (if rem = 0 then ''FILLED'' else ''PARTIAL''),
                      tradesExecuted = executed\<rparr>"
    and d': "d' = delete_zero_positions (stamp_prices sid symRow executed d1)"
    by (auto simp: market_order_def split: option.splits if_splits)
  from market_loop_fills [OF assms(1) loop]
  have e: "executed = map (\<lambda>(m, q). (price m, q)) ?F"
    and t: "trades d1 = trades d @ map (\<lambda>(m, q). market_trade userId sid sd m q) ?F"
    and r: "rem = qty - sum_list (map snd ?F)"
    by simp_all
  from e ne show "?F \<noteq> []" by auto
  from e resp show "tradesExecuted resp = map (\<lambda>(m, q). (price m, q)) ?F" by simp
  from t d' show "trades d' = trades d @ map (\<lambda>(m, q). market_trade userId sid sd m q) ?F"
    by (simp add: stamp_prices_frame)
  from r resp show "orderStatus resp =
      (if sum_list (map snd ?F) = qty then ''FILLED'' else ''PARTIAL'')"
    by auto
qed

lemma market_book_orders: "set (market_book sid sd d) \<subseteq> set (orders d)"
  by (cases sd) (auto simp: market_book_def open_orders_def)

text \<open>The three outcomes of a market order, by the matcher's fills.\<close>

lemma market_loop_no_fill:
  assumes "0 \<le> rem" and "spec_market_fills J sd cash rem book = []"
  shows "market_loop J userId sid sd book rem cash executed d = Some (d, rem, executed)"
proof (cases book)
  case Nil
  then show ?thesis by simp
next
  case (Cons ord rest)
  with assms(2) spec_market_fills_step [of rem sd J cash ord rest]
  have "\<not> 0 < rem \<or> (sd = Buy \<and> js_less J cash (fill_cost J ord (min rem (quantity ord))))"
    by auto
  with assms(1) Cons show ?thesis by auto
qed

lemma market_order_no_fill:
  assumes "0 \<le> qty"
    and "spec_market_fills J sd (js_parseFloat J userCash) qty (market_book sid sd d) = []"
  shows "market_order J userId sid sd qty symRow userCash d0 d = (Inl NoLiquidity, d0)"
  using market_loop_no_fill [OF assms] by (simp add: market_order_def)

lemma market_order_commits:
  assumes "0 \<le> qty"
    and "spec_market_fills J sd (js_parseFloat J userCash) qty (market_book sid sd d) \<noteq> []"
    and "users d userId \<noteq> None"
    and "\<forall>r \<in> set (orders d). users d (user_id r) \<noteq> None"
  shows "\<exists>resp d'. market_order J userId sid sd qty symRow userCash d0 d = (Inr resp, d')"
proof -
  from assms(4) market_book_orders [of sid sd d]
  have "\<forall>m \<in> set (market_book sid sd d). users d (user_id m) \<noteq> None" by auto
  from market_loop_returns [OF assms(3) this]
  obtain d1 rem executed where
    loop: "market_loop J userId sid sd (market_book sid sd d) qty (js_parseFloat J userCash) [] d
             = Some (d1, rem, executed)"
    by (metis prod_cases3)
  from market_loop_fills [OF assms(1) loop] assms(2) have "executed \<noteq> []" by simp
  with loop show ?thesis by (simp add: market_order_def)
qed

lemma market_order_raises:
  assumes "0 \<le> qty"
    and "spec_market_fills J sd (js_parseFloat J userCash) qty (market_book sid sd d) \<noteq> []"
    and "users d userId = None"
  shows "market_order J userId sid sd qty symRow userCash d0 d = (Inl ErrorProcessingOrder, d0)"
  using market_loop_raises [OF assms(1) assms(3) assms(2)] by (simp add: market_order_def)


lemma market_order_last_price:
  assumes "0 \<le> qty" and "symbols d sid = Some symRow'"
    and "market_order J userId sid sd qty symRow userCash d0 d = (Inr resp, d')"
  shows "map_option last_price (symbols d' sid) =
           Some (Some (price (fst (last
             (spec_market_fills J sd (js_parseFloat J userCash) qty (market_book sid sd d))))))"
proof -
  let ?F = "spec_market_fills J sd (js_parseFloat J userCash) qty (market_book sid sd d)"
  from assms(3) obtain d1 rem executed where
    loop: "market_loop J userId sid sd (market_book sid sd d) qty (js_parseFloat J userCash) [] d
             = Some (d1, rem, executed)"
    and ne: "executed \<noteq> []"
    and d': "d' = delete_zero_positions (stamp_prices sid symRow executed d1)"
    by (auto simp: market_order_def split: option.splits if_splits)
  from market_loop_fills [OF assms(1) loop]
  have e: "executed = map (\<lambda>(m, q). (price m, q)) ?F" and s: "symbols d1 = symbols d"
    by simp_all
  from e ne have "?F \<noteq> []" by auto
  with e have "fst (last executed) = price (fst (last ?F))"
    by (simp add: last_map split_beta)
  with stamp_prices_last [of d1 sid symRow' symRow executed] s assms(2) d'
  show ?thesis by simp
qed

subsection \<open>Market orders and liquidity\<close>

text \<open>
  Claim C7. For a well-formed market submission that passes the resource preconditions,
  let \<open>F\<close> be the fills of the matcher over the opposite book in priority order, started
  with the taker's balance as the route reads it. No fill is produced exactly when the
  book has no open order or, for a buy, the balance does not cover the first candidate
  fill; the submission is then rejected with \<open>NoLiquidity\<close> and the store is returned
  unchanged, and \<open>NoLiquidity\<close> is answered in no other case. With at least one fill, a
  taker with an account commits: the response lists exactly the fills \<open>F\<close> at the makers'
  prices, with status \<open>FILLED\<close> when they add up to the quantity asked and \<open>PARTIAL\<close>
  otherwise, one trade row is appended per fill and the last price is stamped; a caller
  without a \<open>users\<close> row ends in an error at the first trade row, with the store unchanged.
  The fills walk the book from its head, each of the minimum of the residual and the
  maker's quantity; every fill of a buy is covered by the balance less the fills before
  it; and the fills stop before the end of the book with a residual left only for a buy
  whose next fill exceeds the cash that is left.
\<close>

theorem C7_market_liquidity:
  fixes J :: "'f js_arith"
  assumes valid: "validate req = Inr (sid, sd, p, qty, ''market'')"
    and sym: "symbols d sid = Some symRow"
    and res: "resource_check J symRow (userCash_of userId d) (userPos_of userId sid d) sd p qty
                ''market'' = None"
  defines "cash \<equiv> js_parseFloat J (userCash_of userId d)"
    and "book \<equiv> market_book sid sd d"
  defines "F \<equiv> spec_market_fills J sd cash qty book"
  shows "(F = [] \<longleftrightarrow>
            book = [] \<or>
            (sd = Buy \<and> (\<exists>ord rest. book = ord # rest \<and>
               js_less J cash (fill_cost J ord (min qty (quantity ord))))))
       \<and> (F = [] \<longrightarrow> submit J userId req d = (Inl NoLiquidity, d))
       \<and> (\<forall>d'. submit J userId req d = (Inl NoLiquidity, d') \<longrightarrow> F = [])
       \<and> (F \<noteq> [] \<and> users d userId \<noteq> None \<and> (\<forall>r \<in> set (orders d). users d (user_id r) \<noteq> None)
            \<longrightarrow> (\<exists>d'. submit J userId req d =
                    (Inr \<lparr>orderStatus = (if sum_list (map snd F) = qty then ''FILLED''
                                         else ''PARTIAL''),
                          tradesExecuted = map (\<lambda>(m, q). (price m, q)) F\<rparr>, d')
                  \<and> trades d' = trades d @ map (\<lambda>(m, q). market_trade userId sid sd m q) F
                  \<and> map_option last_price (symbols d' sid)
                      = Some (Some (price (fst (last F))))))
       \<and> (F \<noteq> [] \<and> users d userId = None
            \<longrightarrow> submit J userId req d = (Inl ErrorProcessingOrder, d))
       \<and> map fst F = take (length F) book
       \<and> (\<forall>i < length F.
            snd (F ! i) = min (qty - sum_list (map snd (take i F))) (quantity (fst (F ! i))))
       \<and> (sd = Buy \<longrightarrow>
            (\<forall>i < length F.
               \<not> js_less J (cash_left J cash (take i F)) (fill_cost J (fst (F ! i)) (snd (F ! i)))))
       \<and> (length F < length book \<and> sum_list (map snd F) < qty
            \<longrightarrow> sd = Buy \<and>
                js_less J (cash_left J cash F)
                  (fill_cost J (book ! length F)
                     (min (qty - sum_list (map snd F)) (quantity (book ! length F)))))"
proof -
  have qty: "0 < qty" by (rule validate_quantity [OF valid])
  then have qty0: "0 \<le> qty" by simp
  note sub = submit_market [OF valid sym res]
  have c1: "F = [] \<longleftrightarrow>
            book = [] \<or>
            (sd = Buy \<and> (\<exists>ord rest. book = ord # rest \<and>
               js_less J cash (fill_cost J ord (min qty (quantity ord)))))"
  proof (cases book)
    case Nil
    then show ?thesis by (simp add: F_def)
  next
    case (Cons ord rest)
    show ?thesis
    proof (cases "sd = Buy \<and> js_less J cash (fill_cost J ord (min qty (quantity ord)))")
      case True
      with Cons show ?thesis by (simp add: F_def spec_market_fills_stop)
    next
      case False
      with Cons qty show ?thesis by (simp add: F_def spec_market_fills_step)
    qed
  qed
  have c2: "F = [] \<longrightarrow> submit J userId req d = (Inl NoLiquidity, d)"
    using market_order_no_fill [OF qty0, of J sd "userCash_of userId d" sid d userId symRow d]
    by (simp add: sub F_def cash_def book_def)
  have c3: "\<forall>d'. submit J userId req d = (Inl NoLiquidity, d') \<longrightarrow> F = []"
  proof (intro allI impI)
    fix d'
    assume nl: "submit J userId req d = (Inl NoLiquidity, d')"
    show "F = []"
    proof (rule ccontr)
      assume ne: "F \<noteq> []"
      show False
      proof (cases "market_loop J userId sid sd book qty cash [] d")
        case None
        with nl show False by (simp add: sub market_order_def cash_def book_def)
      next
        case (Some r)
        obtain d1 rem executed where r: "r = (d1, rem, executed)" by (cases r) auto
        from market_loop_fills [OF qty0 Some [unfolded r]] ne have "executed \<noteq> []"
          by (simp add: F_def)
        with Some r nl show False by (simp add: sub market_order_def cash_def book_def)
      qed
    qed
  qed
  have c4: "F \<noteq> [] \<and> users d userId \<noteq> None \<and> (\<forall>r \<in> set (orders d). users d (user_id r) \<noteq> None)
            \<longrightarrow> (\<exists>d'. submit J userId req d =
                    (Inr \<lparr>orderStatus = (if sum_list (map snd F) = qty then ''FILLED''
                                         else ''PARTIAL''),
                          tradesExecuted = map (\<lambda>(m, q). (price m, q)) F\<rparr>, d')
                  \<and> trades d' = trades d @ map (\<lambda>(m, q). market_trade userId sid sd m q) F
                  \<and> map_option last_price (symbols d' sid)
                      = Some (Some (price (fst (last F)))))"
  proof
    assume a: "F \<noteq> [] \<and> users d userId \<noteq> None \<and>
               (\<forall>r \<in> set (orders d). users d (user_id r) \<noteq> None)"
    then have "spec_market_fills J sd (js_parseFloat J (userCash_of userId d)) qty
                 (market_book sid sd d) \<noteq> []"
      by (simp add: F_def cash_def book_def)
    from market_order_commits [OF qty0 this, of userId symRow d] a
    obtain resp d' where
      mo: "market_order J userId sid sd qty symRow (userCash_of userId d) d d = (Inr resp, d')"
      by blast
    from market_order_accepted(2,4) [OF qty0 mo]
    have "resp = \<lparr>orderStatus = (if sum_list (map snd F) = qty then ''FILLED'' else ''PARTIAL''),
                  tradesExecuted = map (\<lambda>(m, q). (price m, q)) F\<rparr>"
      by (cases resp) (simp add: F_def cash_def book_def)
    with mo market_order_accepted(3) [OF qty0 mo] market_order_last_price [OF qty0 sym mo]
    show "\<exists>d'. submit J userId req d =
                    (Inr \<lparr>orderStatus = (if sum_list (map snd F) = qty then ''FILLED''
                                         else ''PARTIAL''),
                          tradesExecuted = map (\<lambda>(m, q). (price m, q)) F\<rparr>, d')
                  \<and> trades d' = trades d @ map (\<lambda>(m, q). market_trade userId sid sd m q) F
                  \<and> map_option last_price (symbols d' sid)
                      = Some (Some (price (fst (last F))))"
      by (intro exI [of _ d']) (simp add: sub F_def cash_def book_def)
  qed
  have c5: "F \<noteq> [] \<and> users d userId = None
            \<longrightarrow> submit J userId req d = (Inl ErrorProcessingOrder, d)"
    using market_order_raises [OF qty0, of J sd "userCash_of userId d" sid d userId symRow d]
    by (simp add: sub F_def cash_def book_def)
  have c6: "map fst F = take (length F) book"
    unfolding F_def by (rule spec_market_fills_prefix)
  have c7: "\<forall>i < length F.
            snd (F ! i) = min (qty - sum_list (map snd (take i F))) (quantity (fst (F ! i)))"
    unfolding F_def by (intro allI impI spec_market_fills_quantity)
  have c8: "sd = Buy \<longrightarrow>
            (\<forall>i < length F.
               \<not> js_less J (cash_left J cash (take i F)) (fill_cost J (fst (F ! i)) (snd (F ! i))))"
  proof (intro allI impI)
    fix i assume "sd = Buy" and "i < length F"
    then show "\<not> js_less J (cash_left J cash (take i F)) (fill_cost J (fst (F ! i)) (snd (F ! i)))"
      using spec_market_fills_affordable [of i J cash qty book] by (simp add: F_def)
  qed
  have c9: "length F < length book \<and> sum_list (map snd F) < qty
            \<longrightarrow> sd = Buy \<and>
                js_less J (cash_left J cash F)
                  (fill_cost J (book ! length F)
                     (min (qty - sum_list (map snd F)) (quantity (book ! length F))))"
    using spec_market_fills_stops [OF qty0, of J sd cash book] by (simp add: F_def)
  from c1 c2 c3 c4 c5 c6 c7 c8 c9 show ?thesis by blast
qed


lemma two_asks_db_book:
  "market_book 1 Buy two_asks_db =
     [\<lparr>order_id = 1, user_id = 1, symbol_id = 1, side = Sell, price = 100, quantity = 3,
        status = OPEN\<rparr>,
      \<lparr>order_id = 2, user_id = 1, symbol_id = 1, side = Sell, price = 101, quantity = 3,
        status = OPEN\<rparr>]"
  by (simp add: two_asks_db_def route_defs)

lemma two_asks_db_orders:
  "orders two_asks_db =
     [\<lparr>order_id = 1, user_id = 1, symbol_id = 1, side = Sell, price = 100, quantity = 3,
        status = OPEN\<rparr>,
      \<lparr>order_id = 2, user_id = 1, symbol_id = 1, side = Sell, price = 101, quantity = 3,
        status = OPEN\<rparr>]"
  by (simp add: two_asks_db_def route_defs)

lemma two_asks_db_symbol:
  "symbols two_asks_db 1 = Some \<lparr>outstanding_shares = 100, last_price = None, prev_price = None\<rparr>"
  by (simp add: two_asks_db_def route_defs)

lemma two_asks_db_users:
  "users two_asks_db 1 = Some 10000" "users two_asks_db 3 = Some 350"
  "users two_asks_db 4 = Some 200"
  by (simp_all add: two_asks_db_def route_defs)

lemma two_asks_db_trades: "trades two_asks_db = []"
  by (simp add: two_asks_db_def route_defs)

lemma resting_buy_db_book:
  "market_book 1 Sell resting_buy_db =
     [\<lparr>order_id = 1, user_id = 2, symbol_id = 1, side = Buy, price = 100, quantity = 10,
        status = OPEN\<rparr>]"
  by (simp add: resting_buy_db_def route_defs)

lemma resting_buy_db_symbol:
  "symbols resting_buy_db 1 = Some \<lparr>outstanding_shares = 100, last_price = None, prev_price = None\<rparr>"
  by (simp add: resting_buy_db_def route_defs)

lemma resting_buy_db_user_7: "users resting_buy_db 7 = None" "positions resting_buy_db (7, 1) = None"
  by (simp_all add: resting_buy_db_def route_defs)

theorem C7_market_liquidity_witness:
  "submit exact_arith 2 (ex_request ''buy'' (Some ''market'') None 4) ex_db
     = (Inl NoLiquidity, ex_db)
   \<and> submit exact_arith 4 (ex_request ''buy'' (Some ''market'') None 4) two_asks_db
       = (Inl NoLiquidity, two_asks_db)
   \<and> (\<exists>d'. submit exact_arith 3 (ex_request ''buy'' (Some ''market'') None 10) two_asks_db
             = (Inr \<lparr>orderStatus = ''PARTIAL'', tradesExecuted = [(100, 3)]\<rparr>, d')
          \<and> trades d' =
              [\<lparr>t_symbol_id = 1, t_price = 100, t_quantity = 3, buy_order_id = None,
                sell_order_id = Some 1, buy_user_id = 3, sell_user_id = 1, taker_side = Buy\<rparr>]
          \<and> map_option last_price (symbols d' 1) = Some (Some 100))
   \<and> js_less exact_arith (350 - 100 * 3) (101 * 3)
   \<and> submit exact_arith 7 (ex_request ''sell'' (Some ''market'') None 4) resting_buy_db
       = (Inl ErrorProcessingOrder, resting_buy_db)"
proof -
  let ?row = "\<lparr>outstanding_shares = 100, last_price = None, prev_price = None\<rparr>"
  have v4: "validate (ex_request ''buy'' (Some ''market'') None 4) = Inr (1, Buy, None, 4, ''market'')"
    and v10: "validate (ex_request ''buy'' (Some ''market'') None 10)
                = Inr (1, Buy, None, 10, ''market'')"
    and vs: "validate (ex_request ''sell'' (Some ''market'') None 4)
                = Inr (1, Sell, None, 4, ''market'')"
    by (simp_all add: route_defs)
  have s0: "symbols ex_db 1 = Some ?row" by (simp add: ex_db_def)
  have r: "resource_check exact_arith ?row c u Buy None q ''market'' = None" for c u q
    by (simp add: resource_check_def)
  have rs: "resource_check exact_arith ?row (userCash_of 7 resting_buy_db)
              (userPos_of 7 1 resting_buy_db) Sell None 4 ''market'' = None"
    by (simp add: resource_check_def userCash_of_def userPos_of_def resting_buy_db_user_7
          shortQty_of_def cash_below_cost_def exact_arith_def)
  have a: "submit exact_arith 2 (ex_request ''buy'' (Some ''market'') None 4) ex_db
             = (Inl NoLiquidity, ex_db)"
    using C7_market_liquidity [OF v4 s0 r, of 2, THEN conjunct2, THEN conjunct1]
    by (simp add: market_book_def open_orders_def ex_db_def)
  have b: "submit exact_arith 4 (ex_request ''buy'' (Some ''market'') None 4) two_asks_db
             = (Inl NoLiquidity, two_asks_db)"
    using C7_market_liquidity [OF v4 two_asks_db_symbol r, of 4, THEN conjunct2, THEN conjunct1]
    by (simp add: two_asks_db_book two_asks_db_users userCash_of_def spec_market_fills_def
          exact_arith_def fill_cost_def)
  have F: "spec_market_fills exact_arith Buy (js_parseFloat exact_arith (userCash_of 3 two_asks_db))
             10 (market_book 1 Buy two_asks_db)
           = [(\<lparr>order_id = 1, user_id = 1, symbol_id = 1, side = Sell, price = 100, quantity = 3,
                status = OPEN\<rparr>, 3)]"
    by (simp add: two_asks_db_book two_asks_db_users userCash_of_def spec_market_fills_def
          exact_arith_def fill_cost_def)
  have c: "\<exists>d'. submit exact_arith 3 (ex_request ''buy'' (Some ''market'') None 10) two_asks_db
             = (Inr \<lparr>orderStatus = ''PARTIAL'', tradesExecuted = [(100, 3)]\<rparr>, d')
          \<and> trades d' =
              [\<lparr>t_symbol_id = 1, t_price = 100, t_quantity = 3, buy_order_id = None,
                sell_order_id = Some 1, buy_user_id = 3, sell_user_id = 1, taker_side = Buy\<rparr>]
          \<and> map_option last_price (symbols d' 1) = Some (Some 100)"
    using C7_market_liquidity [OF v10 two_asks_db_symbol r, of 3,
        THEN conjunct2, THEN conjunct2, THEN conjunct2, THEN conjunct1]
    by (simp add: F two_asks_db_orders two_asks_db_users two_asks_db_trades market_trade_def)
  have d: "js_less exact_arith (350 - 100 * 3) (101 * 3)"
    using C7_market_liquidity [OF v10 two_asks_db_symbol r, of 3,
        THEN conjunct2, THEN conjunct2, THEN conjunct2, THEN conjunct2,
        THEN conjunct2, THEN conjunct2, THEN conjunct2, THEN conjunct2]
    by (simp add: F two_asks_db_book two_asks_db_users userCash_of_def cash_left_def
          exact_arith_def fill_cost_def)
  have e: "submit exact_arith 7 (ex_request ''sell'' (Some ''market'') None 4) resting_buy_db
             = (Inl ErrorProcessingOrder, resting_buy_db)"
    using C7_market_liquidity [OF vs resting_buy_db_symbol rs,
        THEN conjunct2, THEN conjunct2, THEN conjunct2, THEN conjunct2, THEN conjunct1]
    by (simp add: resting_buy_db_book resting_buy_db_user_7 spec_market_fills_def)
  from a b c d e show ?thesis by blast
qed


subsection \<open>Cash of a resting buy order that is filled\<close>

text \<open>
  A market sell debits the resting buyer \<open>price \<times> quantity\<close> at the fill although the same
  amount was debited when the buy limit was placed; the route refunds reserved cash only to
  a limit buyer that is the taker. When seller and resting buyer are the same user the two
  legs of the fill cancel, and the reservation stays debited.
\<close>

lemma market_sell_debits_maker:
  assumes "market_fill userId sid Sell ord matchQty d = Some d1"
    and "user_id ord \<noteq> userId" and "users d (user_id ord) = Some c"
  shows "users d1 (user_id ord) = Some (c - price ord * matchQty)"
  using assms
  by (auto simp: market_fill_def Let_def credit_def debit_def position_add_def position_sub_def
        update_order_def insert_trade_def split: option.splits if_splits)

lemma self_trade_legs_cancel:
  assumes "market_fill userId sid Sell ord matchQty d = Some d1" and "user_id ord = userId"
  shows "users d1 = users d"
    and "positions d (userId, sid) = Some n \<Longrightarrow> positions d1 (userId, sid) = Some n"
  using assms
  by (auto simp: market_fill_def Let_def credit_def debit_def position_add_def position_sub_def
        update_order_def insert_trade_def split: option.splits if_splits)

text \<open>
  Claim C1 at the self-trade scenario. User 1 (10000 cash, 100 shares) posts a buy limit of
  5 at 90, which reserves 450, and sells 5 at the market into it. A trade of 5 at 90 is
  recorded, the last price becomes 90 and the position is 100 again, but the cash balance
  is 9550: the net cash change including the reservation is \<open>-450\<close>, not 0.
\<close>

theorem C1_self_trade_reservation_kept:
  "users ex_db 1 = Some 10000
   \<and> positions ex_db (1, 1) = Some 100
   \<and> fst (submit exact_arith 1 (ex_request ''buy'' (Some ''limit'') (Some (Num 90)) 5) ex_db)
       = Inr \<lparr>orderStatus = ''OPEN'', tradesExecuted = []\<rparr>
   \<and> users own_bid_db 1 = Some 9550
   \<and> fst (submit exact_arith 1 (ex_request ''sell'' (Some ''market'') None 5) own_bid_db)
       = Inr \<lparr>orderStatus = ''FILLED'', tradesExecuted = [(90, 5)]\<rparr>
   \<and> users self_cross_db 1 = Some 9550
   \<and> positions self_cross_db (1, 1) = Some 100
   \<and> trades self_cross_db =
       [\<lparr>t_symbol_id = 1, t_price = 90, t_quantity = 5, buy_order_id = Some 1,
         sell_order_id = None, buy_user_id = 1, sell_user_id = 1, taker_side = Sell\<rparr>]
   \<and> map_option last_price (symbols self_cross_db 1) = Some (Some 90)
   \<and> orders self_cross_db =
       [\<lparr>order_id = 1, user_id = 1, symbol_id = 1, side = Buy, price = 90, quantity = 0,
         status = FILLED\<rparr>]"
  by (simp add: self_cross_db_def own_bid_db_def route_defs)

text \<open>
  Claim C2 at a concrete life cycle. User 2 posts a buy limit of 10 at 100 (10000 - 1000),
  4 are filled at 100 by user 1's market sell (a further 400 is debited), and the residual
  6 is cancelled (600 credited). The net cash change is \<open>-800 = -2 \<times> (100 \<times> 4)\<close>, not
  \<open>-(100 \<times> 4)\<close>.
\<close>

theorem C2_filled_buy_charged_twice:
  "users ex_db 2 = Some 10000
   \<and> users resting_buy_db 2 = Some (10000 - 100 * 10)
   \<and> fst (submit exact_arith 1 (ex_request ''sell'' (Some ''market'') None 4) resting_buy_db)
       = Inr \<lparr>orderStatus = ''FILLED'', tradesExecuted = [(100, 4)]\<rparr>
   \<and> users partly_filled_buy_db 2 = Some (10000 - 100 * 10 - 100 * 4)
   \<and> orders partly_filled_buy_db =
       [\<lparr>order_id = 1, user_id = 2, symbol_id = 1, side = Buy, price = 100, quantity = 6,
         status = OPEN\<rparr>]
   \<and> fst (cancel 2 1 partly_filled_buy_db) = Inr ()
   \<and> users cancelled_buy_db 2 = Some (10000 - 2 * (100 * 4))
   \<and> users cancelled_buy_db 2 \<noteq> Some (10000 - 100 * 4)"
  by (simp add: cancelled_buy_db_def partly_filled_buy_db_def resting_buy_db_def route_defs)

text \<open>
  Claim C3 at a concrete run. From balances of 10000 each, user 2 bids for 100 shares at
  100 (balance 0 after the reservation), user 1 sells 100 at the market, and the committed
  state has user 2 at \<open>-10000\<close>.
\<close>

theorem C3_maker_balance_negative:
  "users ex_db 1 = Some 10000 \<and> users ex_db 2 = Some 10000
   \<and> fst (submit exact_arith 2 (ex_request ''buy'' (Some ''limit'') (Some (Num 100)) 100) ex_db)
       = Inr \<lparr>orderStatus = ''OPEN'', tradesExecuted = []\<rparr>
   \<and> users all_in_bid_db 1 = Some 10000 \<and> users all_in_bid_db 2 = Some 0
   \<and> fst (submit exact_arith 1 (ex_request ''sell'' (Some ''market'') None 100) all_in_bid_db)
       = Inr \<lparr>orderStatus = ''FILLED'', tradesExecuted = [(100, 100)]\<rparr>
   \<and> users all_in_filled_db 2 = Some (- 10000)"
  by (simp add: all_in_filled_db_def all_in_bid_db_def route_defs)

subsection \<open>The limit loops\<close>

lemma limit_buy_fill_frame:
  assumes "limit_buy_fill userId sid n ord q d = Some d1"
  shows "trades d1 = trades d @ [limit_buy_trade userId sid n ord q]"
  using assms
  by (auto simp: limit_buy_fill_def Let_def insert_trade_def update_order_def credit_def
        position_add_def position_sub_def split: option.splits if_splits)

lemma limit_sell_fill_frame:
  assumes "limit_sell_fill userId sid n ord q d = Some d1"
  shows "trades d1 = trades d @ [limit_sell_trade userId sid n ord q]"
  using assms
  by (auto simp: limit_sell_fill_def Let_def insert_trade_def update_order_def credit_def debit_def
        position_add_def position_sub_def split: option.splits if_splits)

lemma spec_fills_0: "spec_fills 0 book = []"
  by (cases book) simp_all

lemma limit_buy_loop_fills:
  assumes "limit_buy_loop userId sid newOrderId book rem executed d = Some (d1, rem', executed')"
  shows "executed' = executed @ map (\<lambda>(m, q). (price m, q)) (spec_fills rem book)
       \<and> trades d1 = trades d @
           map (\<lambda>(m, q). limit_buy_trade userId sid newOrderId m q) (spec_fills rem book)
       \<and> rem' = rem - sum_list (map snd (spec_fills rem book))"
  using assms
proof (induction book arbitrary: rem executed d)
  case Nil
  then show ?case by simp
next
  case (Cons ord book)
  show ?case
  proof (cases "rem \<le> 0")
    case True
    with Cons.prems show ?thesis by auto
  next
    case False
    from False Cons.prems obtain d2 where
      fill: "limit_buy_fill userId sid newOrderId ord (min rem (quantity ord)) d = Some d2"
      by (cases "limit_buy_fill userId sid newOrderId ord (min rem (quantity ord)) d") auto
    note t = limit_buy_fill_frame [OF fill]
    show ?thesis
    proof (cases "rem \<le> quantity ord")
      case True
      then have m: "min rem (quantity ord) = rem" by simp
      from False Cons.prems fill t show ?thesis
        by (auto simp: m spec_fills_0)
    next
      case large: False
      then have m: "min rem (quantity ord) = quantity ord" by simp
      from large False Cons.prems fill
      have "limit_buy_loop userId sid newOrderId book (rem - quantity ord)
              (executed @ [(price ord, quantity ord)]) d2
            = Some (d1, rem', executed')"
        by (simp add: m)
      from Cons.IH [OF this] False t show ?thesis
        by (simp add: m)
    qed
  qed
qed

lemma limit_sell_loop_fills:
  assumes "limit_sell_loop userId sid newOrderId book rem executed d = Some (d1, rem', executed')"
  shows "executed' = executed @ map (\<lambda>(m, q). (price m, q)) (spec_fills rem book)
       \<and> trades d1 = trades d @
           map (\<lambda>(m, q). limit_sell_trade userId sid newOrderId m q) (spec_fills rem book)
       \<and> rem' = rem - sum_list (map snd (spec_fills rem book))"
  using assms
proof (induction book arbitrary: rem executed d)
  case Nil
  then show ?case by simp
next
  case (Cons ord book)
  show ?case
  proof (cases "rem \<le> 0")
    case True
    with Cons.prems show ?thesis by auto
  next
    case False
    from False Cons.prems obtain d2 where
      fill: "limit_sell_fill userId sid newOrderId ord (min rem (quantity ord)) d = Some d2"
      by (cases "limit_sell_fill userId sid newOrderId ord (min rem (quantity ord)) d") auto
    note t = limit_sell_fill_frame [OF fill]
    show ?thesis
    proof (cases "rem \<le> quantity ord")
      case True
      then have m: "min rem (quantity ord) = rem" by simp
      from False Cons.prems fill t show ?thesis
        by (auto simp: m spec_fills_0)
    next
      case large: False
      then have m: "min rem (quantity ord) = quantity ord" by simp
      from large False Cons.prems fill
      have "limit_sell_loop userId sid newOrderId book (rem - quantity ord)
              (executed @ [(price ord, quantity ord)]) d2
            = Some (d1, rem', executed')"
        by (simp add: m)
      from Cons.IH [OF this] False t show ?thesis
        by (simp add: m)
    qed
  qed
qed

lemma limit_book_cong:
  assumes "orders d = orders d'"
  shows "limit_buy_book sid p d = limit_buy_book sid p d'"
    and "limit_sell_book sid p d = limit_sell_book sid p d'"
  using open_orders_cong [OF assms, of sid Sell] open_orders_cong [OF assms, of sid Buy]
  by (simp_all add: limit_buy_book_def limit_sell_book_def split: option.splits jsnum.splits)

lemma limit_buy_book_insert_order:
  assumes "insert_order userId sid Buy p q d = Some d1"
  shows "limit_buy_book sid p' d1 = limit_buy_book sid p' d"
  using open_orders_insert_order [OF assms, of Sell] by (simp add: limit_buy_book_def split: option.splits jsnum.splits)

lemma limit_sell_book_insert_order:
  assumes "insert_order userId sid Sell p q d = Some d1"
  shows "limit_sell_book sid p' d1 = limit_sell_book sid p' d"
  using open_orders_insert_order [OF assms, of Buy] by (simp add: limit_sell_book_def split: option.splits jsnum.splits)

lemma limit_order_frame:
  "trades (delete_zero_positions d) = trades d"
  "trades (stamp_prices sid symRow executed d) = trades d"
  "trades (update_order_quantity oid q d) = trades d"
  "trades (update_order oid q st d) = trades d"
  by (simp_all add: delete_zero_positions_def stamp_prices_def update_prices_def Let_def
        update_order_quantity_def update_order_def)

text \<open>What an accepted order of the limit path has done.\<close>

lemma limit_buy_accepted:
  assumes "limit_order userId sid Buy p qty type symRow userPos d0 d = (Inr resp, d')"
  shows "tradesExecuted resp =
           map (\<lambda>(m, q). (price m, q)) (spec_fills qty (limit_buy_book sid p d))"
    and "trades d' = trades d @
           map (\<lambda>(m, q). limit_buy_trade userId sid (next_order_id d) m q)
             (spec_fills qty (limit_buy_book sid p d))"
proof -
  from assms obtain d1 where ins: "insert_order userId sid Buy p qty d = Some d1"
    by (rule limit_order_inserts)
  then have t1: "trades d1 = trades d"
    by (auto simp: insert_order_def split: if_splits)
  from assms ins obtain d2 rem executed where
    loop: "limit_buy_loop userId sid (next_order_id d) (limit_buy_book sid p d1) qty [] d1
             = Some (d2, rem, executed)"
    and resp: "tradesExecuted resp = executed"
    and d': "trades d' = trades d2"
    by (auto simp: limit_order_def Let_def limit_order_frame refund_frame
          split: option.splits if_splits)
  from limit_buy_loop_fills [OF loop] resp d' t1
  show "tradesExecuted resp =
           map (\<lambda>(m, q). (price m, q)) (spec_fills qty (limit_buy_book sid p d))"
    and "trades d' = trades d @
           map (\<lambda>(m, q). limit_buy_trade userId sid (next_order_id d) m q)
             (spec_fills qty (limit_buy_book sid p d))"
    by (simp_all add: limit_buy_book_insert_order [OF ins])
qed

lemma limit_sell_accepted:
  assumes "limit_order userId sid Sell p qty type symRow userPos d0 d = (Inr resp, d')"
  shows "tradesExecuted resp =
           map (\<lambda>(m, q). (price m, q)) (spec_fills qty (limit_sell_book sid p d))"
    and "trades d' = trades d @
           map (\<lambda>(m, q). limit_sell_trade userId sid (next_order_id d) m q)
             (spec_fills qty (limit_sell_book sid p d))"
proof -
  from assms obtain d1 where ins: "insert_order userId sid Sell p qty d = Some d1"
    by (rule limit_order_inserts)
  then have t1: "trades d1 = trades d"
    by (auto simp: insert_order_def split: if_splits)
  from assms ins obtain d2 rem executed where
    loop: "limit_sell_loop userId sid (next_order_id d) (limit_sell_book sid p d1) qty [] d1
             = Some (d2, rem, executed)"
    and resp: "tradesExecuted resp = executed"
    and d': "trades d' = trades d2"
    by (auto simp: limit_order_def Let_def limit_order_frame refund_frame
          split: option.splits if_splits)
  from limit_sell_loop_fills [OF loop] resp d' t1
  show "tradesExecuted resp =
           map (\<lambda>(m, q). (price m, q)) (spec_fills qty (limit_sell_book sid p d))"
    and "trades d' = trades d @
           map (\<lambda>(m, q). limit_sell_trade userId sid (next_order_id d) m q)
             (spec_fills qty (limit_sell_book sid p d))"
    by (simp_all add: limit_sell_book_insert_order [OF ins])
qed

lemma submit_limit_accepted:
  assumes "validate req = Inr (sid, sd, p, qty, type)" and "type \<noteq> ''market''"
    and "submit J userId req d = (Inr resp, d')"
  obtains symRow d1 where "reserve userId (userPos_of userId sid d) sd p qty type d = Some d1"
    and "limit_order userId sid sd p qty type symRow (userPos_of userId sid d) d d1 = (Inr resp, d')"
  using assms
  by (auto simp: submit_def split: option.splits)


subsection \<open>Candidate selection\<close>

lemma sorted_ask_priority: "sorted_wrt ask_priority (sort_key price_asc_id_asc xs)"
proof -
  have "sorted (map price_asc_id_asc (sort_key price_asc_id_asc xs))"
    by (rule sorted_sort_key)
  then have "sorted_wrt (\<lambda>a b. price_asc_id_asc a \<le> price_asc_id_asc b)
               (sort_key price_asc_id_asc xs)"
    by (simp add: sorted_map)
  then show ?thesis
    by (rule sorted_wrt_mono_rel [rotated])
       (auto simp: price_asc_id_asc_def ask_priority_def)
qed

lemma sorted_bid_priority: "sorted_wrt bid_priority (sort_key price_desc_id_asc xs)"
proof -
  have "sorted (map price_desc_id_asc (sort_key price_desc_id_asc xs))"
    by (rule sorted_sort_key)
  then have "sorted_wrt (\<lambda>a b. price_desc_id_asc a \<le> price_desc_id_asc b)
               (sort_key price_desc_id_asc xs)"
    by (simp add: sorted_map)
  then show ?thesis
    by (rule sorted_wrt_mono_rel [rotated])
       (auto simp: price_desc_id_asc_def bid_priority_def)
qed

lemma limit_buy_book_rows:
  "mset (limit_buy_book sid (Some (Num p)) d) =
     mset (filter (\<lambda>r. symbol_id r = sid \<and> side r = Sell \<and> status r = OPEN \<and> price r \<le> p)
             (orders d))"
  by (simp add: limit_buy_book_def open_orders_def conj_commute conj_left_commute)

lemma limit_sell_book_rows:
  "mset (limit_sell_book sid (Some (Num p)) d) =
     mset (filter (\<lambda>r. symbol_id r = sid \<and> side r = Buy \<and> status r = OPEN \<and> price r \<ge> p)
             (orders d))"
  by (simp add: limit_sell_book_def open_orders_def conj_commute conj_left_commute)

lemma market_book_rows:
  "mset (market_book sid sd d) =
     mset (filter (\<lambda>r. symbol_id r = sid \<and> side r = (case sd of Buy \<Rightarrow> Sell | Sell \<Rightarrow> Buy)
                        \<and> status r = OPEN) (orders d))"
  by (cases sd) (simp_all add: market_book_def open_orders_def)

subsection \<open>Orders of better priority are filled first\<close>

lemma earlier_in_prefix:
  assumes sorted: "sorted_wrt P book"
    and a: "a \<in> set book" and b: "b \<in> set (take k book)"
    and ne: "a \<noteq> b" and ab: "\<not> P b a"
  shows "\<exists>i j. i < j \<and> j < length (take k book) \<and> take k book ! i = a \<and> take k book ! j = b"
proof -
  from b obtain j where j: "j < length (take k book)" "take k book ! j = b"
    by (auto simp: in_set_conv_nth)
  from a obtain i where i: "i < length book" "book ! i = a"
    by (auto simp: in_set_conv_nth)
  from j have jb: "j < length book" "book ! j = b" "j < k" by auto
  have "i < j"
  proof (rule ccontr)
    assume "\<not> i < j"
    with i jb ne have "j < i" by (cases "i = j") auto
    with sorted i have "P (book ! j) (book ! i)"
      by (auto intro: sorted_wrt_nth_less)
    with i jb ab show False by simp
  qed
  with i j jb show ?thesis
    by (intro exI [of _ i] exI [of _ j]) auto
qed

lemma fills_in_priority:
  assumes "sorted_wrt P book" and F: "map fst F = take (length F) book"
    and "a \<in> set book" and "b \<in> set (map fst F)" and "a \<noteq> b" and "\<not> P b a"
  shows "\<exists>i j. i < j \<and> j < length F \<and> fst (F ! i) = a \<and> fst (F ! j) = b"
proof -
  from assms have "\<exists>i j. i < j \<and> j < length (take (length F) book)
      \<and> take (length F) book ! i = a \<and> take (length F) book ! j = b"
    by (intro earlier_in_prefix [where P = P]) simp_all
  then obtain i j where ij: "i < j" "j < length (map fst F)"
    "map fst F ! i = a" "map fst F ! j = b"
    unfolding F [symmetric] by blast
  then show ?thesis
    by (intro exI [of _ i] exI [of _ j]) simp
qed

lemma asks_filled_in_priority:
  assumes "sorted_wrt ask_priority book" and "map fst F = take (length F) book"
    and "a \<in> set book" and "b \<in> set (map fst F)"
    and "price a < price b \<or> (price a = price b \<and> order_id a < order_id b)"
  shows "\<exists>i j. i < j \<and> j < length F \<and> fst (F ! i) = a \<and> fst (F ! j) = b"
  using assms by (intro fills_in_priority [where P = ask_priority and book = book])
    (auto simp: ask_priority_def)

lemma bids_filled_in_priority:
  assumes "sorted_wrt bid_priority book" and "map fst F = take (length F) book"
    and "a \<in> set book" and "b \<in> set (map fst F)"
    and "price b < price a \<or> (price a = price b \<and> order_id a < order_id b)"
  shows "\<exists>i j. i < j \<and> j < length F \<and> fst (F ! i) = a \<and> fst (F ! j) = b"
  using assms by (intro fills_in_priority [where P = bid_priority and book = book])
    (auto simp: bid_priority_def)

subsection \<open>Price-time priority\<close>

text \<open>
  Claim C6. The candidates of an incoming buy with bound \<open>p\<close> are the symbol's open sell
  orders with price \<open>\<le> p\<close>, each once, in ascending price then ascending id; those of an
  incoming sell with bound \<open>p\<close> are the open buy orders with price \<open>\<ge> p\<close>, in descending
  price then ascending id; a market order takes every open order of the opposite side in
  the same order. An accepted market submission has executed exactly the fills of the
  matcher over the market book, \<open>Fm\<close>: they are its response and the trade rows it
  appended; an accepted transaction of the limit path with bound \<open>p\<close> has executed exactly
  the fills of the matcher over the bounded book of the store it ran on, \<open>Fb\<close> for a buy
  and \<open>Fs\<close> for a sell, and so has an accepted submission of that path with the book of
  the store it was given.
  The fills walk the book from its head, each fill's quantity is the minimum of the
  residual and the maker's quantity, and an order of the book is filled before every
  filled order of a worse price or of the same price and a larger id.
\<close>

theorem C6_price_time_priority:
  fixes J :: "'f js_arith" and userId sid qty p :: int and sd :: side and d :: db
  defines "Fm \<equiv> spec_market_fills J sd (js_parseFloat J (userCash_of userId d)) qty
                   (market_book sid sd d)"
    and "Fb \<equiv> spec_fills qty (limit_buy_book sid (Some (Num p)) d)"
    and "Fs \<equiv> spec_fills qty (limit_sell_book sid (Some (Num p)) d)"
  shows
   "mset (limit_buy_book sid (Some (Num p)) d) =
      mset (filter (\<lambda>r. symbol_id r = sid \<and> side r = Sell \<and> status r = OPEN \<and> price r \<le> p)
              (orders d))
    \<and> sorted_wrt ask_priority (limit_buy_book sid (Some (Num p)) d)
    \<and> mset (limit_sell_book sid (Some (Num p)) d) =
      mset (filter (\<lambda>r. symbol_id r = sid \<and> side r = Buy \<and> status r = OPEN \<and> price r \<ge> p)
              (orders d))
    \<and> sorted_wrt bid_priority (limit_sell_book sid (Some (Num p)) d)
    \<and> mset (market_book sid Buy d) =
      mset (filter (\<lambda>r. symbol_id r = sid \<and> side r = Sell \<and> status r = OPEN) (orders d))
    \<and> sorted_wrt ask_priority (market_book sid Buy d)
    \<and> mset (market_book sid Sell d) =
      mset (filter (\<lambda>r. symbol_id r = sid \<and> side r = Buy \<and> status r = OPEN) (orders d))
    \<and> sorted_wrt bid_priority (market_book sid Sell d)
    \<and> (\<forall>pr resp d'.
         validate req = Inr (sid, sd, pr, qty, ''market'') \<and>
         submit J userId req d = (Inr resp, d') \<longrightarrow>
           tradesExecuted resp = map (\<lambda>(m, q). (price m, q)) Fm
         \<and> trades d' = trades d @ map (\<lambda>(m, q). market_trade userId sid sd m q) Fm)
    \<and> (\<forall>type symRow userPos d0 resp d'.
         limit_order userId sid Buy (Some (Num p)) qty type symRow userPos d0 d = (Inr resp, d')
         \<longrightarrow>
           tradesExecuted resp = map (\<lambda>(m, q). (price m, q)) Fb
         \<and> trades d' = trades d @
             map (\<lambda>(m, q). limit_buy_trade userId sid (next_order_id d) m q) Fb)
    \<and> (\<forall>type symRow userPos d0 resp d'.
         limit_order userId sid Sell (Some (Num p)) qty type symRow userPos d0 d = (Inr resp, d')
         \<longrightarrow>
           tradesExecuted resp = map (\<lambda>(m, q). (price m, q)) Fs
         \<and> trades d' = trades d @
             map (\<lambda>(m, q). limit_sell_trade userId sid (next_order_id d) m q) Fs)
    \<and> (\<forall>pr type resp d'.
         validate req = Inr (sid, Buy, pr, qty, type) \<and> type \<noteq> ''market'' \<and>
         submit J userId req d = (Inr resp, d') \<longrightarrow>
           tradesExecuted resp =
             map (\<lambda>(m, q). (price m, q)) (spec_fills qty (limit_buy_book sid pr d))
         \<and> trades d' = trades d @
             map (\<lambda>(m, q). limit_buy_trade userId sid (next_order_id d) m q)
               (spec_fills qty (limit_buy_book sid pr d)))
    \<and> (\<forall>pr type resp d'.
         validate req = Inr (sid, Sell, pr, qty, type) \<and> type \<noteq> ''market'' \<and>
         submit J userId req d = (Inr resp, d') \<longrightarrow>
           tradesExecuted resp =
             map (\<lambda>(m, q). (price m, q)) (spec_fills qty (limit_sell_book sid pr d))
         \<and> trades d' = trades d @
             map (\<lambda>(m, q). limit_sell_trade userId sid (next_order_id d) m q)
               (spec_fills qty (limit_sell_book sid pr d)))
    \<and> map fst Fm = take (length Fm) (market_book sid sd d)
    \<and> map fst Fb = take (length Fb) (limit_buy_book sid (Some (Num p)) d)
    \<and> map fst Fs = take (length Fs) (limit_sell_book sid (Some (Num p)) d)
    \<and> (\<forall>i < length Fm.
         snd (Fm ! i) = min (qty - sum_list (map snd (take i Fm))) (quantity (fst (Fm ! i))))
    \<and> (\<forall>i < length Fb.
         snd (Fb ! i) = min (qty - sum_list (map snd (take i Fb))) (quantity (fst (Fb ! i))))
    \<and> (\<forall>i < length Fs.
         snd (Fs ! i) = min (qty - sum_list (map snd (take i Fs))) (quantity (fst (Fs ! i))))
    \<and> (\<forall>a b. a \<in> set (market_book sid sd d) \<and> b \<in> set (map fst Fm) \<and>
         ((case sd of Buy \<Rightarrow> price a < price b | Sell \<Rightarrow> price b < price a) \<or>
          (price a = price b \<and> order_id a < order_id b)) \<longrightarrow>
         (\<exists>i j. i < j \<and> j < length Fm \<and> fst (Fm ! i) = a \<and> fst (Fm ! j) = b))
    \<and> (\<forall>a b. a \<in> set (limit_buy_book sid (Some (Num p)) d) \<and> b \<in> set (map fst Fb) \<and>
         (price a < price b \<or> (price a = price b \<and> order_id a < order_id b)) \<longrightarrow>
         (\<exists>i j. i < j \<and> j < length Fb \<and> fst (Fb ! i) = a \<and> fst (Fb ! j) = b))
    \<and> (\<forall>a b. a \<in> set (limit_sell_book sid (Some (Num p)) d) \<and> b \<in> set (map fst Fs) \<and>
         (price b < price a \<or> (price a = price b \<and> order_id a < order_id b)) \<longrightarrow>
         (\<exists>i j. i < j \<and> j < length Fs \<and> fst (Fs ! i) = a \<and> fst (Fs ! j) = b))"
proof -
  have b1: "mset (limit_buy_book sid (Some (Num p)) d) =
      mset (filter (\<lambda>r. symbol_id r = sid \<and> side r = Sell \<and> status r = OPEN \<and> price r \<le> p)
              (orders d))"
    by (rule limit_buy_book_rows)
  have b2: "sorted_wrt ask_priority (limit_buy_book sid (Some (Num p)) d)"
    by (simp add: limit_buy_book_def sorted_ask_priority)
  have b3: "mset (limit_sell_book sid (Some (Num p)) d) =
      mset (filter (\<lambda>r. symbol_id r = sid \<and> side r = Buy \<and> status r = OPEN \<and> price r \<ge> p)
              (orders d))"
    by (rule limit_sell_book_rows)
  have b4: "sorted_wrt bid_priority (limit_sell_book sid (Some (Num p)) d)"
    by (simp add: limit_sell_book_def sorted_bid_priority)
  have b5: "mset (market_book sid Buy d) =
      mset (filter (\<lambda>r. symbol_id r = sid \<and> side r = Sell \<and> status r = OPEN) (orders d))"
    by (simp add: market_book_rows)
  have b6: "sorted_wrt ask_priority (market_book sid Buy d)"
    by (simp add: market_book_def sorted_ask_priority)
  have b7: "mset (market_book sid Sell d) =
      mset (filter (\<lambda>r. symbol_id r = sid \<and> side r = Buy \<and> status r = OPEN) (orders d))"
    by (simp add: market_book_rows)
  have b8: "sorted_wrt bid_priority (market_book sid Sell d)"
    by (simp add: market_book_def sorted_bid_priority)
  have r1: "\<forall>pr resp d'.
         validate req = Inr (sid, sd, pr, qty, ''market'') \<and>
         submit J userId req d = (Inr resp, d') \<longrightarrow>
           tradesExecuted resp = map (\<lambda>(m, q). (price m, q)) Fm
         \<and> trades d' = trades d @ map (\<lambda>(m, q). market_trade userId sid sd m q) Fm"
  proof (intro allI impI)
    fix pr resp d'
    assume a: "validate req = Inr (sid, sd, pr, qty, ''market'') \<and>
               submit J userId req d = (Inr resp, d')"
    then have v: "validate req = Inr (sid, sd, pr, qty, ''market'')"
      and s: "submit J userId req d = (Inr resp, d')" by simp_all
    have q: "0 \<le> qty" using validate_quantity [OF v] by simp
    from v s obtain symRow where
      "market_order J userId sid sd qty symRow (userCash_of userId d) d d = (Inr resp, d')"
      by (rule submit_market_accepted)
    from market_order_accepted(2,3) [OF q this]
    show "tradesExecuted resp = map (\<lambda>(m, q). (price m, q)) Fm
         \<and> trades d' = trades d @ map (\<lambda>(m, q). market_trade userId sid sd m q) Fm"
      by (simp add: Fm_def)
  qed
  have r2: "\<forall>type symRow userPos d0 resp d'.
         limit_order userId sid Buy (Some (Num p)) qty type symRow userPos d0 d = (Inr resp, d')
         \<longrightarrow>
           tradesExecuted resp = map (\<lambda>(m, q). (price m, q)) Fb
         \<and> trades d' = trades d @
             map (\<lambda>(m, q). limit_buy_trade userId sid (next_order_id d) m q) Fb"
    using limit_buy_accepted [where userId = userId and sid = sid and p = "Some (Num p)"
        and qty = qty and d = d]
    by (simp add: Fb_def)
  have r3: "\<forall>type symRow userPos d0 resp d'.
         limit_order userId sid Sell (Some (Num p)) qty type symRow userPos d0 d = (Inr resp, d')
         \<longrightarrow>
           tradesExecuted resp = map (\<lambda>(m, q). (price m, q)) Fs
         \<and> trades d' = trades d @
             map (\<lambda>(m, q). limit_sell_trade userId sid (next_order_id d) m q) Fs"
    using limit_sell_accepted [where userId = userId and sid = sid and p = "Some (Num p)"
        and qty = qty and d = d]
    by (simp add: Fs_def)
  have r4: "\<forall>pr type resp d'.
         validate req = Inr (sid, Buy, pr, qty, type) \<and> type \<noteq> ''market'' \<and>
         submit J userId req d = (Inr resp, d') \<longrightarrow>
           tradesExecuted resp =
             map (\<lambda>(m, q). (price m, q)) (spec_fills qty (limit_buy_book sid pr d))
         \<and> trades d' = trades d @
             map (\<lambda>(m, q). limit_buy_trade userId sid (next_order_id d) m q)
               (spec_fills qty (limit_buy_book sid pr d))"
  proof (intro allI impI)
    fix pr type resp d'
    assume a: "validate req = Inr (sid, Buy, pr, qty, type) \<and> type \<noteq> ''market'' \<and>
               submit J userId req d = (Inr resp, d')"
    then have v: "validate req = Inr (sid, Buy, pr, qty, type)"
      and t: "type \<noteq> ''market''"
      and s: "submit J userId req d = (Inr resp, d')" by simp_all
    from v t s obtain symRow d1 where
      re: "reserve userId (userPos_of userId sid d) Buy pr qty type d = Some d1"
      and lo: "limit_order userId sid Buy pr qty type symRow (userPos_of userId sid d) d d1
                 = (Inr resp, d')"
      by (rule submit_limit_accepted)
    from limit_buy_accepted [OF lo] reserve_frame(1,2,3) [OF re]
      limit_book_cong(1) [of d1 d sid pr]
    show "tradesExecuted resp =
             map (\<lambda>(m, q). (price m, q)) (spec_fills qty (limit_buy_book sid pr d))
         \<and> trades d' = trades d @
             map (\<lambda>(m, q). limit_buy_trade userId sid (next_order_id d) m q)
               (spec_fills qty (limit_buy_book sid pr d))"
      by simp
  qed
  have r5: "\<forall>pr type resp d'.
         validate req = Inr (sid, Sell, pr, qty, type) \<and> type \<noteq> ''market'' \<and>
         submit J userId req d = (Inr resp, d') \<longrightarrow>
           tradesExecuted resp =
             map (\<lambda>(m, q). (price m, q)) (spec_fills qty (limit_sell_book sid pr d))
         \<and> trades d' = trades d @
             map (\<lambda>(m, q). limit_sell_trade userId sid (next_order_id d) m q)
               (spec_fills qty (limit_sell_book sid pr d))"
  proof (intro allI impI)
    fix pr type resp d'
    assume a: "validate req = Inr (sid, Sell, pr, qty, type) \<and> type \<noteq> ''market'' \<and>
               submit J userId req d = (Inr resp, d')"
    then have v: "validate req = Inr (sid, Sell, pr, qty, type)"
      and t: "type \<noteq> ''market''"
      and s: "submit J userId req d = (Inr resp, d')" by simp_all
    from v t s obtain symRow d1 where
      re: "reserve userId (userPos_of userId sid d) Sell pr qty type d = Some d1"
      and lo: "limit_order userId sid Sell pr qty type symRow (userPos_of userId sid d) d d1
                 = (Inr resp, d')"
      by (rule submit_limit_accepted)
    from limit_sell_accepted [OF lo] reserve_frame(1,2,3) [OF re]
      limit_book_cong(2) [of d1 d sid pr]
    show "tradesExecuted resp =
             map (\<lambda>(m, q). (price m, q)) (spec_fills qty (limit_sell_book sid pr d))
         \<and> trades d' = trades d @
             map (\<lambda>(m, q). limit_sell_trade userId sid (next_order_id d) m q)
               (spec_fills qty (limit_sell_book sid pr d))"
      by simp
  qed
  have p1: "map fst Fm = take (length Fm) (market_book sid sd d)"
    unfolding Fm_def by (rule spec_market_fills_prefix)
  have p2: "map fst Fb = take (length Fb) (limit_buy_book sid (Some (Num p)) d)"
    unfolding Fb_def by (rule spec_fills_prefix)
  have p3: "map fst Fs = take (length Fs) (limit_sell_book sid (Some (Num p)) d)"
    unfolding Fs_def by (rule spec_fills_prefix)
  have q1: "\<forall>i < length Fm.
         snd (Fm ! i) = min (qty - sum_list (map snd (take i Fm))) (quantity (fst (Fm ! i)))"
    unfolding Fm_def by (intro allI impI spec_market_fills_quantity)
  have q2: "\<forall>i < length Fb.
         snd (Fb ! i) = min (qty - sum_list (map snd (take i Fb))) (quantity (fst (Fb ! i)))"
    unfolding Fb_def by (intro allI impI spec_fills_quantity)
  have q3: "\<forall>i < length Fs.
         snd (Fs ! i) = min (qty - sum_list (map snd (take i Fs))) (quantity (fst (Fs ! i)))"
    unfolding Fs_def by (intro allI impI spec_fills_quantity)
  have o1: "\<forall>a b. a \<in> set (market_book sid sd d) \<and> b \<in> set (map fst Fm) \<and>
         ((case sd of Buy \<Rightarrow> price a < price b | Sell \<Rightarrow> price b < price a) \<or>
          (price a = price b \<and> order_id a < order_id b)) \<longrightarrow>
         (\<exists>i j. i < j \<and> j < length Fm \<and> fst (Fm ! i) = a \<and> fst (Fm ! j) = b)"
  proof (intro allI impI)
    fix a b
    assume h: "a \<in> set (market_book sid sd d) \<and> b \<in> set (map fst Fm) \<and>
         ((case sd of Buy \<Rightarrow> price a < price b | Sell \<Rightarrow> price b < price a) \<or>
          (price a = price b \<and> order_id a < order_id b))"
    show "\<exists>i j. i < j \<and> j < length Fm \<and> fst (Fm ! i) = a \<and> fst (Fm ! j) = b"
    proof (cases sd)
      case Buy
      with h b6 p1 show ?thesis
        by (intro asks_filled_in_priority [where book = "market_book sid sd d"]) simp_all
    next
      case Sell
      with h b8 p1 show ?thesis
        by (intro bids_filled_in_priority [where book = "market_book sid sd d"]) simp_all
    qed
  qed
  have o2: "\<forall>a b. a \<in> set (limit_buy_book sid (Some (Num p)) d) \<and> b \<in> set (map fst Fb) \<and>
         (price a < price b \<or> (price a = price b \<and> order_id a < order_id b)) \<longrightarrow>
         (\<exists>i j. i < j \<and> j < length Fb \<and> fst (Fb ! i) = a \<and> fst (Fb ! j) = b)"
    using b2 p2
    by (intro allI impI asks_filled_in_priority
          [where book = "limit_buy_book sid (Some (Num p)) d"]) simp_all
  have o3: "\<forall>a b. a \<in> set (limit_sell_book sid (Some (Num p)) d) \<and> b \<in> set (map fst Fs) \<and>
         (price b < price a \<or> (price a = price b \<and> order_id a < order_id b)) \<longrightarrow>
         (\<exists>i j. i < j \<and> j < length Fs \<and> fst (Fs ! i) = a \<and> fst (Fs ! j) = b)"
    using b4 p3
    by (intro allI impI bids_filled_in_priority
          [where book = "limit_sell_book sid (Some (Num p)) d"]) simp_all
  show ?thesis
    apply (intro conjI)
    apply (rule b1) apply (rule b2) apply (rule b3) apply (rule b4)
    apply (rule b5) apply (rule b6) apply (rule b7) apply (rule b8)
    apply (rule r1) apply (rule r2) apply (rule r3) apply (rule r4) apply (rule r5)
    apply (rule p1) apply (rule p2) apply (rule p3)
    apply (rule q1) apply (rule q2) apply (rule q3)
    apply (rule o1) apply (rule o2) apply (rule o3)
    done
qed


lemma three_asks_db_orders: "orders three_asks_db = [ask_1, ask_2, ask_3]"
  by (simp add: three_asks_db_def equal_asks_db_def route_defs ask_1_def ask_2_def ask_3_def)

lemma three_asks_db_book: "market_book 1 Buy three_asks_db = [ask_3, ask_1, ask_2]"
  by (simp add: market_book_def open_orders_def three_asks_db_orders price_asc_id_asc_def
        ask_1_def ask_2_def ask_3_def)

lemma three_asks_db_limit_book:
  "limit_buy_book 1 (Some (Num 100)) three_asks_db = [ask_3, ask_1, ask_2]"
  by (simp add: limit_buy_book_def open_orders_def three_asks_db_orders price_asc_id_asc_def
        ask_1_def ask_2_def ask_3_def)

lemma three_asks_db_store:
  "users three_asks_db 2 = Some 10000" "trades three_asks_db = []"
  "next_order_id three_asks_db = 4"
  by (simp_all add: three_asks_db_def equal_asks_db_def route_defs)

lemma three_bids_db_orders: "orders three_bids_db = [bid_1, bid_2, bid_3]"
  by (simp add: three_bids_db_def equal_bids_db_def route_defs bid_1_def bid_2_def bid_3_def)

lemma three_bids_db_book: "market_book 1 Sell three_bids_db = [bid_3, bid_1, bid_2]"
  by (simp add: market_book_def open_orders_def three_bids_db_orders price_desc_id_asc_def
        bid_1_def bid_2_def bid_3_def)

lemma three_bids_db_limit_book:
  "limit_sell_book 1 (Some (Num 100)) three_bids_db = [bid_3, bid_1, bid_2]"
  by (simp add: limit_sell_book_def open_orders_def three_bids_db_orders price_desc_id_asc_def
        bid_1_def bid_2_def bid_3_def)

lemma three_bids_db_store:
  "trades three_bids_db = []" "next_order_id three_bids_db = 4"
  by (simp_all add: three_bids_db_def equal_bids_db_def route_defs)

theorem C6_price_time_priority_witness:
  "(\<exists>d'. submit exact_arith 2 (ex_request ''buy'' (Some ''market'') None 7) three_asks_db
            = (Inr \<lparr>orderStatus = ''FILLED'', tradesExecuted = [(99, 3), (100, 3), (100, 1)]\<rparr>, d')
         \<and> map sell_order_id (trades d') = [Some 3, Some 1, Some 2]
         \<and> map t_quantity (trades d') = [3, 3, 1])
   \<and> (\<exists>d'. limit_order 2 1 Buy (Some (Num 100)) 7 ''limit'' ex_symbol 0 three_asks_db three_asks_db
            = (Inr \<lparr>orderStatus = ''FILLED'', tradesExecuted = [(99, 3), (100, 3), (100, 1)]\<rparr>, d')
         \<and> map sell_order_id (trades d') = [Some 3, Some 1, Some 2]
         \<and> map t_quantity (trades d') = [3, 3, 1])
   \<and> (\<exists>d'. limit_order 1 1 Sell (Some (Num 100)) 7 ''limit'' ex_symbol 100 three_bids_db three_bids_db
            = (Inr \<lparr>orderStatus = ''FILLED'', tradesExecuted = [(101, 3), (100, 3), (100, 1)]\<rparr>, d')
         \<and> map buy_order_id (trades d') = [Some 3, Some 1, Some 2]
         \<and> map t_quantity (trades d') = [3, 3, 1])
   \<and> (\<exists>i j. i < j \<and> j < 3
         \<and> fst ([(ask_3, 3), (ask_1, 3), (ask_2, 1::int)] ! i) = ask_1
         \<and> fst ([(ask_3, 3), (ask_1, 3), (ask_2, 1::int)] ! j) = ask_2)
   \<and> (\<exists>i j. i < j \<and> j < 3
         \<and> fst ([(bid_3, 3), (bid_1, 3), (bid_2, 1::int)] ! i) = bid_3
         \<and> fst ([(bid_3, 3), (bid_1, 3), (bid_2, 1::int)] ! j) = bid_1)"
proof -
  let ?mb = "ex_request ''buy'' (Some ''market'') None 7"
  let ?lb = "limit_order 2 1 Buy (Some (Num 100)) 7 ''limit'' ex_symbol 0 three_asks_db three_asks_db"
  let ?ls = "limit_order 1 1 Sell (Some (Num 100)) 7 ''limit'' ex_symbol 100 three_bids_db three_bids_db"
  let ?asks = "\<lparr>orderStatus = ''FILLED'', tradesExecuted = [(99, 3), (100, 3), (100, 1)]\<rparr>"
  let ?bids = "\<lparr>orderStatus = ''FILLED'', tradesExecuted = [(101, 3), (100, 3), (100, 1)]\<rparr>"
  have vmb: "validate ?mb = Inr (1, Buy, None, 7, ''market'')"
    by (simp add: route_defs)
  have Fm: "spec_market_fills exact_arith Buy (js_parseFloat exact_arith (userCash_of 2 three_asks_db))
              7 (market_book 1 Buy three_asks_db) = [(ask_3, 3), (ask_1, 3), (ask_2, 1)]"
    by (simp add: three_asks_db_book three_asks_db_store userCash_of_def spec_market_fills_def
          exact_arith_def fill_cost_def ask_1_def ask_2_def ask_3_def)
  have Fb: "spec_fills 7 (limit_buy_book 1 (Some (Num 100)) three_asks_db)
              = [(ask_3, 3), (ask_1, 3), (ask_2, 1)]"
    by (simp add: three_asks_db_limit_book ask_1_def ask_2_def ask_3_def)
  have Fs: "spec_fills 7 (limit_sell_book 1 (Some (Num 100)) three_bids_db)
              = [(bid_3, 3), (bid_1, 3), (bid_2, 1)]"
    by (simp add: three_bids_db_limit_book bid_1_def bid_2_def bid_3_def)
  have "fst (submit exact_arith 2 ?mb three_asks_db) = Inr ?asks"
    by (simp add: three_asks_db_def equal_asks_db_def route_defs)
  then have amb: "submit exact_arith 2 ?mb three_asks_db
                    = (Inr ?asks, snd (submit exact_arith 2 ?mb three_asks_db))"
    by (simp add: prod_eq_iff)
  have "fst ?lb = Inr ?asks"
    by (simp add: three_asks_db_def equal_asks_db_def ex_symbol_def route_defs)
  then have alb: "?lb = (Inr ?asks, snd ?lb)"
    by (simp add: prod_eq_iff)
  have "fst ?ls = Inr ?bids"
    by (simp add: three_bids_db_def equal_bids_db_def ex_symbol_def route_defs)
  then have als: "?ls = (Inr ?bids, snd ?ls)"
    by (simp add: prod_eq_iff)
  note asks = C6_price_time_priority [where J = exact_arith and userId = 2 and sid = 1
      and sd = Buy and qty = 7 and p = 100 and d = three_asks_db]
  note bids = C6_price_time_priority [where J = exact_arith and userId = 1 and sid = 1
      and sd = Sell and qty = 7 and p = 100 and d = three_bids_db]
  from asks [where req = ?mb, THEN conjunct2, THEN conjunct2, THEN conjunct2, THEN conjunct2,
        THEN conjunct2, THEN conjunct2, THEN conjunct2, THEN conjunct2,
        THEN conjunct1, rule_format, OF conjI [OF vmb amb]]
  have w1: "\<exists>d'. submit exact_arith 2 ?mb three_asks_db = (Inr ?asks, d')
         \<and> map sell_order_id (trades d') = [Some 3, Some 1, Some 2]
         \<and> map t_quantity (trades d') = [3, 3, 1]"
    using amb
    by (intro exI [of _ "snd (submit exact_arith 2 ?mb three_asks_db)"])
       (simp add: Fm three_asks_db_store market_trade_def ask_1_def ask_2_def ask_3_def)
  from asks [where req = ?mb, THEN conjunct2, THEN conjunct2, THEN conjunct2, THEN conjunct2,
        THEN conjunct2, THEN conjunct2, THEN conjunct2, THEN conjunct2,
        THEN conjunct2, THEN conjunct1, rule_format, OF alb]
  have w2: "\<exists>d'. ?lb = (Inr ?asks, d')
         \<and> map sell_order_id (trades d') = [Some 3, Some 1, Some 2]
         \<and> map t_quantity (trades d') = [3, 3, 1]"
    using alb
    by (intro exI [of _ "snd ?lb"])
       (simp add: Fb three_asks_db_store limit_buy_trade_def ask_1_def ask_2_def ask_3_def)
  from bids [where req = ?mb, THEN conjunct2, THEN conjunct2, THEN conjunct2, THEN conjunct2,
        THEN conjunct2, THEN conjunct2, THEN conjunct2, THEN conjunct2,
        THEN conjunct2, THEN conjunct2, THEN conjunct1, rule_format, OF als]
  have w3: "\<exists>d'. ?ls = (Inr ?bids, d')
         \<and> map buy_order_id (trades d') = [Some 3, Some 1, Some 2]
         \<and> map t_quantity (trades d') = [3, 3, 1]"
    using als
    by (intro exI [of _ "snd ?ls"])
       (simp add: Fs three_bids_db_store limit_sell_trade_def bid_1_def bid_2_def bid_3_def)
  have "ask_1 \<in> set (market_book 1 Buy three_asks_db) \<and>
        ask_2 \<in> set (map fst (spec_market_fills exact_arith Buy
            (js_parseFloat exact_arith (userCash_of 2 three_asks_db)) 7
            (market_book 1 Buy three_asks_db))) \<and>
        ((case Buy of Buy \<Rightarrow> price ask_1 < price ask_2 | Sell \<Rightarrow> price ask_2 < price ask_1) \<or>
         (price ask_1 = price ask_2 \<and> order_id ask_1 < order_id ask_2))"
  proof (intro conjI)
    show "ask_1 \<in> set (market_book 1 Buy three_asks_db)"
      by (simp add: three_asks_db_book)
    show "ask_2 \<in> set (map fst (spec_market_fills exact_arith Buy
            (js_parseFloat exact_arith (userCash_of 2 three_asks_db)) 7
            (market_book 1 Buy three_asks_db)))"
      by (simp only: Fm) simp
    show "(case Buy of Buy \<Rightarrow> price ask_1 < price ask_2 | Sell \<Rightarrow> price ask_2 < price ask_1) \<or>
         (price ask_1 = price ask_2 \<and> order_id ask_1 < order_id ask_2)"
      by (simp add: ask_1_def ask_2_def)
  qed
  from asks [where req = ?mb, THEN conjunct2, THEN conjunct2, THEN conjunct2, THEN conjunct2,
        THEN conjunct2, THEN conjunct2, THEN conjunct2, THEN conjunct2,
        THEN conjunct2, THEN conjunct2, THEN conjunct2, THEN conjunct2,
        THEN conjunct2, THEN conjunct2, THEN conjunct2, THEN conjunct2,
        THEN conjunct2, THEN conjunct2, THEN conjunct2, THEN conjunct1, rule_format, OF this]
  have w4: "\<exists>i j. i < j \<and> j < 3
         \<and> fst ([(ask_3, 3), (ask_1, 3), (ask_2, 1::int)] ! i) = ask_1
         \<and> fst ([(ask_3, 3), (ask_1, 3), (ask_2, 1::int)] ! j) = ask_2"
    by (simp add: Fm numeral_3_eq_3)
  have "bid_3 \<in> set (limit_sell_book 1 (Some (Num 100)) three_bids_db) \<and>
        bid_1 \<in> set (map fst (spec_fills 7 (limit_sell_book 1 (Some (Num 100)) three_bids_db))) \<and>
        (price bid_1 < price bid_3 \<or> (price bid_3 = price bid_1 \<and> order_id bid_3 < order_id bid_1))"
  proof (intro conjI)
    show "bid_3 \<in> set (limit_sell_book 1 (Some (Num 100)) three_bids_db)"
      by (simp add: three_bids_db_limit_book)
    show "bid_1 \<in> set (map fst (spec_fills 7 (limit_sell_book 1 (Some (Num 100)) three_bids_db)))"
      by (simp only: Fs) simp
    show "price bid_1 < price bid_3 \<or> (price bid_3 = price bid_1 \<and> order_id bid_3 < order_id bid_1)"
      by (simp add: bid_1_def bid_3_def)
  qed
  from bids [where req = ?mb, THEN conjunct2, THEN conjunct2, THEN conjunct2, THEN conjunct2,
        THEN conjunct2, THEN conjunct2, THEN conjunct2, THEN conjunct2,
        THEN conjunct2, THEN conjunct2, THEN conjunct2, THEN conjunct2,
        THEN conjunct2, THEN conjunct2, THEN conjunct2, THEN conjunct2,
        THEN conjunct2, THEN conjunct2, THEN conjunct2, THEN conjunct2,
        THEN conjunct2, rule_format, OF this]
  have w5: "\<exists>i j. i < j \<and> j < 3
         \<and> fst ([(bid_3, 3), (bid_1, 3), (bid_2, 1::int)] ! i) = bid_3
         \<and> fst ([(bid_3, 3), (bid_1, 3), (bid_2, 1::int)] ! j) = bid_1"
    by (simp add: Fs numeral_3_eq_3)
  from w1 w2 w3 w4 w5 show ?thesis by blast
qed

end
